theory Spec2Isabelle
  imports Complex_Main "HOL-Library.Multiset"
begin

text \<open>
  A model of the journal transactions and financial reports of the bookkeeping server: the
  handlers of \<^verbatim>\<open>server/src/handlers/transactions.ts\<close>, and the financial position
  report and the income statement of \<^verbatim>\<open>server/src/handlers/reports.ts\<close>.

  The database is a value that is passed along. A handler that writes takes the current
  time (for \<^verbatim>\<open>new Date()\<close> and \<^verbatim>\<open>defaultNow()\<close>), its arguments and the database, and
  returns a pair: its result or the error it throws, and the database it leaves behind. The
  handlers run their statements one by one, without a database transaction around them, so
  a handler that throws late leaves its earlier writes in place.

  What is idealised: a JavaScript number is an exact rational (the binary rounding of
  doubles is not modelled), ids are integers, every amount fits its column, and
  \<^verbatim>\<open>localeCompare\<close> is a parameter.
\<close>

section \<open>Data model (server/src/db/schema.ts, server/src/schema.ts)\<close>

text \<open>
  The enums of the schema.
\<close>

datatype account_type = ASET | KEWAJIBAN | EKUITAS | PENDAPATAN | BEBAN

datatype transaction_type =
  PENERIMAAN_DANA | PENGELUARAN_DANA | PEMINDAH_BUKUAN | JURNAL_UMUM | JURNAL_KOREKSI

text \<open>
  A JavaScript \<^verbatim>\<open>Date\<close>, as far as the handlers read it: the calendar year
  (\<^verbatim>\<open>getFullYear()\<close>), the zero-based month (\<^verbatim>\<open>getMonth()\<close>) and the time elapsed
  inside that month. Dates are compared the way timestamps are: year, then month, then the
  rest.
\<close>

record Date =
  getFullYear :: int
  getMonth :: nat
  within_month :: nat

definition lte :: "Date \<Rightarrow> Date \<Rightarrow> bool" where
  "lte a b =
     (getFullYear a < getFullYear b \<or>
      (getFullYear a = getFullYear b \<and>
        (getMonth a < getMonth b \<or>
         (getMonth a = getMonth b \<and> within_month a \<le> within_month b))))"

text \<open>
  Amounts. A JavaScript number is modelled as an exact rational (\<open>number\<close>). A column
  declared \<^verbatim>\<open>numeric(.., { precision: 15, scale: 2 })\<close> holds a decimal with two fraction
  digits; it is modelled by its count of hundredths (\<open>numeric\<close>). The handlers write a
  number into such a column as \<^verbatim>\<open>x.toString()\<close>, and the column keeps two fraction digits
  of it, rounding half away from zero (\<open>to_numeric\<close>); they read it back with
  \<^verbatim>\<open>parseFloat\<close>. Values beyond the column's fifteen digits are not modelled.
\<close>

type_synonym number = rat

type_synonym numeric = int

definition to_numeric :: "number \<Rightarrow> numeric" where
  "to_numeric x = (if 0 \<le> x then \<lfloor>x * 100 + 1 / 2\<rfloor> else - \<lfloor>- x * 100 + 1 / 2\<rfloor>)"

definition parseFloat :: "numeric \<Rightarrow> number" where
  "parseFloat c = of_int c / 100"

text \<open>
  Rows. The records are polymorphic in the representation of the amounts: a stored row
  carries \<open>numeric\<close> amounts, the object a handler returns carries \<open>number\<close> amounts
  (the row with its amounts passed through \<^verbatim>\<open>parseFloat\<close>).
\<close>

record account =
  a_id :: int
  a_kode :: string
  a_nama :: string
  a_tipe :: account_type
  a_saldo_awal :: numeric
  a_is_active :: bool

record 'n transaction_header =
  h_id :: int
  nomor_transaksi :: string
  tanggal :: Date
  tipe :: transaction_type
  h_deskripsi :: string
  total_debit :: 'n
  total_kredit :: 'n
  relation_id :: "int option"
  user_id :: int
  is_posted :: bool
  h_created_at :: Date
  updated_at :: Date

record 'n transaction_detail =
  d_id :: int
  header_id :: int
  account_id :: int
  d_deskripsi :: string
  debit :: 'n
  kredit :: 'n
  urutan :: int
  d_created_at :: Date

type_synonym TransactionHeader = "number transaction_header"

type_synonym TransactionDetail = "number transaction_detail"

type_synonym CompleteTransaction = "TransactionHeader \<times> TransactionDetail list"

definition parse_header :: "numeric transaction_header \<Rightarrow> TransactionHeader" where
  "parse_header r =
     \<lparr>h_id = h_id r, nomor_transaksi = nomor_transaksi r, tanggal = tanggal r, tipe = tipe r,
      h_deskripsi = h_deskripsi r, total_debit = parseFloat (total_debit r),
      total_kredit = parseFloat (total_kredit r), relation_id = relation_id r,
      user_id = user_id r, is_posted = is_posted r, h_created_at = h_created_at r,
      updated_at = updated_at r\<rparr>"

definition parse_detail :: "numeric transaction_detail \<Rightarrow> TransactionDetail" where
  "parse_detail r =
     \<lparr>d_id = d_id r, header_id = header_id r, account_id = account_id r,
      d_deskripsi = d_deskripsi r, debit = parseFloat (debit r), kredit = parseFloat (kredit r),
      urutan = urutan r, d_created_at = d_created_at r\<rparr>"

text \<open>
  The handlers' inputs. A field of a \<^verbatim>\<open>Partial<..>\<close> input is \<open>None\<close> when it is
  \<^verbatim>\<open>undefined\<close>; the nullable \<^verbatim>\<open>relation_id\<close> is an option of its own.
\<close>

record CreateTransactionHeaderInput =
  in_nomor_transaksi :: string
  in_tanggal :: Date
  in_tipe :: transaction_type
  in_deskripsi :: string
  in_relation_id :: "int option"
  in_user_id :: int

record CreateTransactionDetailInput =
  in_header_id :: int
  in_account_id :: int
  in_detail_deskripsi :: string
  in_debit :: number
  in_kredit :: number
  in_urutan :: int

record CreateCompleteTransactionInput =
  in_header :: CreateTransactionHeaderInput
  in_details :: "CreateTransactionDetailInput list"

record PartialTransactionHeaderInput =
  upd_nomor_transaksi :: "string option"
  upd_tanggal :: "Date option"
  upd_tipe :: "transaction_type option"
  upd_deskripsi :: "string option"
  upd_relation_id :: "int option option"
  upd_user_id :: "int option"

record PartialTransactionDetailInput =
  upd_header_id :: "int option"
  upd_account_id :: "int option"
  upd_detail_deskripsi :: "string option"
  upd_debit :: "number option"
  upd_kredit :: "number option"
  upd_urutan :: "int option"

text \<open>
  The database: the tables the transaction and report handlers touch, each a list of rows,
  and the two \<^verbatim>\<open>serial\<close> counters. Of the users and relations tables only the primary
  keys are read, so these tables are the lists of their ids.
\<close>

record db =
  usersTable :: "int list"
  relationsTable :: "int list"
  accountsTable :: "account list"
  transactionHeadersTable :: "numeric transaction_header list"
  transactionDetailsTable :: "numeric transaction_detail list"
  next_header_id :: int
  next_detail_id :: int

text \<open>
  Errors: the messages the handlers throw, and the three ways the database layer rejects a
  statement that matter here: a second row with the same \<^verbatim>\<open>nomor_transaksi\<close> (the column is
  \<^verbatim>\<open>unique()\<close>), an insert of no rows, and an update that sets no column.
\<close>

datatype db_error = UniqueViolation | NoValuesToInsert | NoValuesToSet

datatype error =
    TotalDebitMustEqualTotalKredit
  | UserNotFound
  | RelationNotFound
  | AccountWithIdNotFound int
  | AccountNotFound
  | TransactionHeaderNotFound
  | CannotAddDetailToPosted
  | TransactionNotFound
  | CannotUpdatePosted
  | TransactionDetailNotFound
  | CannotUpdateDetailOfPosted
  | TransactionNotBalanced
  | CannotDeleteDetailFromPosted
  | CannotDeletePosted
  | DbError db_error

section \<open>Transaction handlers (server/src/handlers/transactions.ts)\<close>

subsection \<open>Database statements\<close>

definition user_exists :: "db \<Rightarrow> int \<Rightarrow> bool" where
  "user_exists s uid = (filter (\<lambda>u. u = uid) (usersTable s) \<noteq> [])"

definition relation_exists :: "db \<Rightarrow> int \<Rightarrow> bool" where
  "relation_exists s rid = (filter (\<lambda>r. r = rid) (relationsTable s) \<noteq> [])"

definition account_exists :: "db \<Rightarrow> int \<Rightarrow> bool" where
  "account_exists s aid = (filter (\<lambda>a. a_id a = aid) (accountsTable s) \<noteq> [])"

text \<open>
  \<^verbatim>\<open>db.insert(transactionHeadersTable).values({..}).returning()\<close>: the row takes the next
  serial id and the current time in \<^verbatim>\<open>created_at\<close> and \<^verbatim>\<open>updated_at\<close>. The serial is
  consumed even when the unique index rejects the row.
\<close>

definition insert_header ::
  "Date \<Rightarrow> string \<Rightarrow> Date \<Rightarrow> transaction_type \<Rightarrow> string \<Rightarrow> numeric \<Rightarrow> numeric \<Rightarrow>
   int option \<Rightarrow> int \<Rightarrow> db \<Rightarrow> (error + numeric transaction_header) \<times> db" where
  "insert_header now nomor tgl tp desk td tk rel usr s =
     (let row = \<lparr>h_id = next_header_id s, nomor_transaksi = nomor, tanggal = tgl, tipe = tp,
                  h_deskripsi = desk, total_debit = td, total_kredit = tk, relation_id = rel,
                  user_id = usr, is_posted = False, h_created_at = now, updated_at = now\<rparr>;
          s1 = s\<lparr>next_header_id := next_header_id s + 1\<rparr>
      in if filter (\<lambda>h. nomor_transaksi h = nomor) (transactionHeadersTable s) \<noteq> []
         then (Inl (DbError UniqueViolation), s1)
         else (Inr row, s1\<lparr>transactionHeadersTable := transactionHeadersTable s @ [row]\<rparr>))"

text \<open>
  \<^verbatim>\<open>db.insert(transactionDetailsTable).values(..).returning()\<close>, for the detail inputs as
  the handlers pass them: \<^verbatim>\<open>header_id\<close> is given by the caller, the amounts are written as
  \<^verbatim>\<open>x.toString()\<close>. The rows take consecutive serial ids.
\<close>

definition detail_row ::
  "Date \<Rightarrow> int \<Rightarrow> int \<Rightarrow> CreateTransactionDetailInput \<Rightarrow> numeric transaction_detail" where
  "detail_row now hid i detail =
     \<lparr>d_id = i, header_id = hid, account_id = in_account_id detail,
      d_deskripsi = in_detail_deskripsi detail, debit = to_numeric (in_debit detail),
      kredit = to_numeric (in_kredit detail), urutan = in_urutan detail, d_created_at = now\<rparr>"

fun detail_rows ::
  "Date \<Rightarrow> int \<Rightarrow> int \<Rightarrow> CreateTransactionDetailInput list \<Rightarrow> numeric transaction_detail list"
where
  "detail_rows now hid i [] = []"
| "detail_rows now hid i (detail # rest) =
     detail_row now hid i detail # detail_rows now hid (i + 1) rest"

definition insert_details ::
  "Date \<Rightarrow> int \<Rightarrow> CreateTransactionDetailInput list \<Rightarrow> db \<Rightarrow>
   (error + numeric transaction_detail list) \<times> db" where
  "insert_details now hid vals s =
     (if vals = [] then (Inl (DbError NoValuesToInsert), s)
      else let rows = detail_rows now hid (next_detail_id s) vals
           in (Inr rows,
               s\<lparr>transactionDetailsTable := transactionDetailsTable s @ rows,
                 next_detail_id := next_detail_id s + int (length vals)\<rparr>))"

subsection \<open>Balance check and header totals\<close>

text \<open>
  \<^verbatim>\<open>validateTransactionBalance\<close>: the detail rows of the header are summed with
  \<^verbatim>\<open>reduce\<close> and the sums compared up to 0.01.
\<close>

definition validateTransactionBalance :: "db \<Rightarrow> int \<Rightarrow> bool" where
  "validateTransactionBalance s headerId =
     (let details = filter (\<lambda>d. header_id d = headerId) (transactionDetailsTable s);
          totalDebit = foldl (\<lambda>sum detail. sum + parseFloat (debit detail)) 0 details;
          totalKredit = foldl (\<lambda>sum detail. sum + parseFloat (kredit detail)) 0 details
      in \<bar>totalDebit - totalKredit\<bar> < 1 / 100)"

text \<open>
  \<^verbatim>\<open>updateHeaderTotals\<close>: recompute both totals from the stored detail rows and write
  them to the header.
\<close>

definition updateHeaderTotals :: "Date \<Rightarrow> int \<Rightarrow> db \<Rightarrow> db" where
  "updateHeaderTotals now headerId s =
     (let details = filter (\<lambda>d. header_id d = headerId) (transactionDetailsTable s);
          totalDebit = foldl (\<lambda>sum detail. sum + parseFloat (debit detail)) 0 details;
          totalKredit = foldl (\<lambda>sum detail. sum + parseFloat (kredit detail)) 0 details
      in s\<lparr>transactionHeadersTable :=
             map (\<lambda>h. if h_id h = headerId
                       then h\<lparr>total_debit := to_numeric totalDebit,
                              total_kredit := to_numeric totalKredit,
                              updated_at := now\<rparr>
                       else h)
                 (transactionHeadersTable s)\<rparr>)"

subsection \<open>Creation\<close>

text \<open>
  \<^verbatim>\<open>createCompleteTransaction\<close>. The checks run in the order of the source: balance of
  the input lines, user, relation (only when \<^verbatim>\<open>relation_id\<close> is truthy: neither
  \<^verbatim>\<open>null\<close> nor 0), accounts (the first missing one is reported), then the header is
  inserted and after it the detail rows. The two inserts are separate statements: when the
  second one fails the header stays.
\<close>

definition createCompleteTransaction ::
  "Date \<Rightarrow> CreateCompleteTransactionInput \<Rightarrow> db \<Rightarrow> (error + CompleteTransaction) \<times> db" where
  "createCompleteTransaction now input s =
     (let totalDebit = foldl (\<lambda>sum detail. sum + in_debit detail) 0 (in_details input);
          totalKredit = foldl (\<lambda>sum detail. sum + in_kredit detail) 0 (in_details input)
      in if \<bar>totalDebit - totalKredit\<bar> > 1 / 100 then (Inl TotalDebitMustEqualTotalKredit, s)
         else if \<not> user_exists s (in_user_id (in_header input)) then (Inl UserNotFound, s)
         else if (case in_relation_id (in_header input) of
                    None \<Rightarrow> False
                  | Some r \<Rightarrow> r \<noteq> 0 \<and> \<not> relation_exists s r)
              then (Inl RelationNotFound, s)
         else (case find (\<lambda>detail. \<not> account_exists s (in_account_id detail)) (in_details input) of
                 Some detail \<Rightarrow> (Inl (AccountWithIdNotFound (in_account_id detail)), s)
               | None \<Rightarrow>
                  (case insert_header now
                          (in_nomor_transaksi (in_header input)) (in_tanggal (in_header input))
                          (in_tipe (in_header input)) (in_deskripsi (in_header input))
                          (to_numeric totalDebit) (to_numeric totalKredit)
                          (in_relation_id (in_header input)) (in_user_id (in_header input)) s of
                     (Inl e, s1) \<Rightarrow> (Inl e, s1)
                   | (Inr createdHeader, s1) \<Rightarrow>
                      (case insert_details now (h_id createdHeader) (in_details input) s1 of
                         (Inl e, s2) \<Rightarrow> (Inl e, s2)
                       | (Inr detailResults, s2) \<Rightarrow>
                           (Inr (parse_header createdHeader, map parse_detail detailResults),
                            s2)))))"

text \<open>\<^verbatim>\<open>createTransactionHeader\<close>: a header alone, with both totals 0.\<close>

definition createTransactionHeader ::
  "Date \<Rightarrow> CreateTransactionHeaderInput \<Rightarrow> db \<Rightarrow> (error + TransactionHeader) \<times> db" where
  "createTransactionHeader now input s =
     (if \<not> user_exists s (in_user_id input) then (Inl UserNotFound, s)
      else if (case in_relation_id input of
                 None \<Rightarrow> False
               | Some r \<Rightarrow> r \<noteq> 0 \<and> \<not> relation_exists s r)
           then (Inl RelationNotFound, s)
      else (case insert_header now (in_nomor_transaksi input) (in_tanggal input) (in_tipe input)
                   (in_deskripsi input) 0 0 (in_relation_id input) (in_user_id input) s of
              (Inl e, s1) \<Rightarrow> (Inl e, s1)
            | (Inr created, s1) \<Rightarrow> (Inr (parse_header created), s1)))"

text \<open>\<^verbatim>\<open>addTransactionDetail\<close>: one more line for an unposted header, then the totals.\<close>

definition addTransactionDetail ::
  "Date \<Rightarrow> CreateTransactionDetailInput \<Rightarrow> db \<Rightarrow> (error + TransactionDetail) \<times> db" where
  "addTransactionDetail now input s =
     (let headerExists = filter (\<lambda>h. h_id h = in_header_id input) (transactionHeadersTable s)
      in if headerExists = [] then (Inl TransactionHeaderNotFound, s)
         else if is_posted (hd headerExists) then (Inl CannotAddDetailToPosted, s)
         else if \<not> account_exists s (in_account_id input) then (Inl AccountNotFound, s)
         else (case insert_details now (in_header_id input) [input] s of
                 (Inl e, s1) \<Rightarrow> (Inl e, s1)
               | (Inr result, s1) \<Rightarrow>
                   (Inr (parse_detail (hd result)),
                    updateHeaderTotals now (in_header_id input) s1)))"

subsection \<open>Updates\<close>

text \<open>
  \<^verbatim>\<open>updateTransactionHeader\<close>. The user and the relation are looked up only when the
  given id is truthy; every field that is not \<^verbatim>\<open>undefined\<close> is written, together with
  \<^verbatim>\<open>updated_at\<close>. The unique index rejects a \<^verbatim>\<open>nomor_transaksi\<close> that another row has.
\<close>

definition set_header ::
  "Date \<Rightarrow> PartialTransactionHeaderInput \<Rightarrow> numeric transaction_header \<Rightarrow>
   numeric transaction_header" where
  "set_header now input h =
     h\<lparr>nomor_transaksi := (case upd_nomor_transaksi input of None \<Rightarrow> nomor_transaksi h | Some v \<Rightarrow> v),
       tanggal := (case upd_tanggal input of None \<Rightarrow> tanggal h | Some v \<Rightarrow> v),
       tipe := (case upd_tipe input of None \<Rightarrow> tipe h | Some v \<Rightarrow> v),
       h_deskripsi := (case upd_deskripsi input of None \<Rightarrow> h_deskripsi h | Some v \<Rightarrow> v),
       relation_id := (case upd_relation_id input of None \<Rightarrow> relation_id h | Some v \<Rightarrow> v),
       user_id := (case upd_user_id input of None \<Rightarrow> user_id h | Some v \<Rightarrow> v),
       updated_at := now\<rparr>"

definition updateTransactionHeader ::
  "Date \<Rightarrow> int \<Rightarrow> PartialTransactionHeaderInput \<Rightarrow> db \<Rightarrow> (error + TransactionHeader) \<times> db" where
  "updateTransactionHeader now i input s =
     (let existing = filter (\<lambda>h. h_id h = i) (transactionHeadersTable s)
      in if existing = [] then (Inl TransactionNotFound, s)
         else if is_posted (hd existing) then (Inl CannotUpdatePosted, s)
         else if (case upd_user_id input of
                    None \<Rightarrow> False
                  | Some u \<Rightarrow> u \<noteq> 0 \<and> \<not> user_exists s u)
              then (Inl UserNotFound, s)
         else if (case upd_relation_id input of
                    Some (Some r) \<Rightarrow> r \<noteq> 0 \<and> \<not> relation_exists s r
                  | _ \<Rightarrow> False)
              then (Inl RelationNotFound, s)
         else if (case upd_nomor_transaksi input of
                    None \<Rightarrow> False
                  | Some v \<Rightarrow>
                      filter (\<lambda>h. h_id h \<noteq> i \<and> nomor_transaksi h = v)
                        (transactionHeadersTable s) \<noteq> [])
              then (Inl (DbError UniqueViolation), s)
         else (Inr (parse_header (set_header now input (hd existing))),
               s\<lparr>transactionHeadersTable :=
                   map (\<lambda>h. if h_id h = i then set_header now input h else h)
                     (transactionHeadersTable s)\<rparr>))"

text \<open>
  \<^verbatim>\<open>updateTransactionDetail\<close>. The detail is read joined with its header. The
  \<^verbatim>\<open>header_id\<close> of the input is never written; an input that sets no other field gives
  an update without columns, which the database layer rejects.
\<close>

definition join_detail_header ::
  "db \<Rightarrow> int \<Rightarrow> (numeric transaction_detail \<times> numeric transaction_header) list" where
  "join_detail_header s i =
     concat (map (\<lambda>d. map (\<lambda>h. (d, h))
                        (filter (\<lambda>h. header_id d = h_id h) (transactionHeadersTable s)))
                 (filter (\<lambda>d. d_id d = i) (transactionDetailsTable s)))"

definition set_detail ::
  "PartialTransactionDetailInput \<Rightarrow> numeric transaction_detail \<Rightarrow> numeric transaction_detail"
where
  "set_detail input d =
     d\<lparr>account_id := (case upd_account_id input of None \<Rightarrow> account_id d | Some v \<Rightarrow> v),
       d_deskripsi := (case upd_detail_deskripsi input of None \<Rightarrow> d_deskripsi d | Some v \<Rightarrow> v),
       debit := (case upd_debit input of None \<Rightarrow> debit d | Some v \<Rightarrow> to_numeric v),
       kredit := (case upd_kredit input of None \<Rightarrow> kredit d | Some v \<Rightarrow> to_numeric v),
       urutan := (case upd_urutan input of None \<Rightarrow> urutan d | Some v \<Rightarrow> v)\<rparr>"

definition updateTransactionDetail ::
  "Date \<Rightarrow> int \<Rightarrow> PartialTransactionDetailInput \<Rightarrow> db \<Rightarrow> (error + TransactionDetail) \<times> db" where
  "updateTransactionDetail now i input s =
     (let existing = join_detail_header s i
      in if existing = [] then (Inl TransactionDetailNotFound, s)
         else if is_posted (snd (hd existing)) then (Inl CannotUpdateDetailOfPosted, s)
         else if (case upd_account_id input of
                    None \<Rightarrow> False
                  | Some a \<Rightarrow> a \<noteq> 0 \<and> \<not> account_exists s a)
              then (Inl AccountNotFound, s)
         else if upd_account_id input = None \<and> upd_detail_deskripsi input = None \<and>
                 upd_debit input = None \<and> upd_kredit input = None \<and> upd_urutan input = None
              then (Inl (DbError NoValuesToSet), s)
         else let s1 = s\<lparr>transactionDetailsTable :=
                           map (\<lambda>d. if d_id d = i then set_detail input d else d)
                             (transactionDetailsTable s)\<rparr>;
                  headerId = header_id (fst (hd existing))
              in (Inr (parse_detail (set_detail input (fst (hd existing)))),
                  updateHeaderTotals now headerId s1))"

subsection \<open>Posting\<close>

text \<open>
  \<^verbatim>\<open>postTransaction\<close>: the balance is validated first; then every header row with the id
  is marked posted, and no such row is an error.
\<close>

definition postTransaction :: "Date \<Rightarrow> int \<Rightarrow> db \<Rightarrow> (error + TransactionHeader) \<times> db" where
  "postTransaction now i s =
     (if \<not> validateTransactionBalance s i then (Inl TransactionNotBalanced, s)
      else let result = map (\<lambda>h. h\<lparr>is_posted := True, updated_at := now\<rparr>)
                          (filter (\<lambda>h. h_id h = i) (transactionHeadersTable s));
               s1 = s\<lparr>transactionHeadersTable :=
                        map (\<lambda>h. if h_id h = i then h\<lparr>is_posted := True, updated_at := now\<rparr>
                                  else h)
                          (transactionHeadersTable s)\<rparr>
           in if result = [] then (Inl TransactionNotFound, s1)
              else (Inr (parse_header (hd result)), s1))"

text \<open>\<^verbatim>\<open>unpostTransaction\<close>: the header is marked unposted again, with no check.\<close>

definition unpostTransaction :: "Date \<Rightarrow> int \<Rightarrow> db \<Rightarrow> (error + TransactionHeader) \<times> db" where
  "unpostTransaction now i s =
     (let result = map (\<lambda>h. h\<lparr>is_posted := False, updated_at := now\<rparr>)
                     (filter (\<lambda>h. h_id h = i) (transactionHeadersTable s));
          s1 = s\<lparr>transactionHeadersTable :=
                   map (\<lambda>h. if h_id h = i then h\<lparr>is_posted := False, updated_at := now\<rparr>
                             else h)
                     (transactionHeadersTable s)\<rparr>
      in if result = [] then (Inl TransactionNotFound, s1)
         else (Inr (parse_header (hd result)), s1))"

subsection \<open>Deletion\<close>

definition deleteTransactionDetail :: "Date \<Rightarrow> int \<Rightarrow> db \<Rightarrow> (error + bool) \<times> db" where
  "deleteTransactionDetail now i s =
     (let existing = join_detail_header s i
      in if existing = [] then (Inl TransactionDetailNotFound, s)
         else if is_posted (snd (hd existing)) then (Inl CannotDeleteDetailFromPosted, s)
         else let headerId = header_id (fst (hd existing));
                  s1 = s\<lparr>transactionDetailsTable :=
                           filter (\<lambda>d. d_id d \<noteq> i) (transactionDetailsTable s)\<rparr>
              in (Inr True, updateHeaderTotals now headerId s1))"

definition deleteTransaction :: "int \<Rightarrow> db \<Rightarrow> (error + bool) \<times> db" where
  "deleteTransaction i s =
     (let existing = filter (\<lambda>h. h_id h = i) (transactionHeadersTable s)
      in if existing = [] then (Inl TransactionNotFound, s)
         else if is_posted (hd existing) then (Inl CannotDeletePosted, s)
         else (Inr True,
               s\<lparr>transactionDetailsTable :=
                   filter (\<lambda>d. header_id d \<noteq> i) (transactionDetailsTable s),
                 transactionHeadersTable :=
                   filter (\<lambda>h. h_id h \<noteq> i) (transactionHeadersTable s)\<rparr>))"

subsection \<open>Transaction numbers\<close>

text \<open>
  Strings of decimal digits: \<^verbatim>\<open>Number.prototype.toString()\<close> of a non-negative integer
  and of an integer, \<^verbatim>\<open>String.prototype.padStart\<close>, and \<^verbatim>\<open>parseInt\<close> on a string of
  digits.
\<close>

definition isDigit :: "char \<Rightarrow> bool" where
  "isDigit c = (c \<in> set ''0123456789'')"

definition digit_char :: "nat \<Rightarrow> char" where
  "digit_char d = ''0123456789'' ! d"

definition digit_value :: "char \<Rightarrow> nat" where
  "digit_value c = of_char c - of_char CHR ''0''"

fun toString_nat :: "nat \<Rightarrow> string" where
  "toString_nat n =
     (if n < 10 then [digit_char n] else toString_nat (n div 10) @ [digit_char (n mod 10)])"

declare toString_nat.simps [simp del]

definition toString_int :: "int \<Rightarrow> string" where
  "toString_int i = (if i < 0 then CHR ''-'' # toString_nat (nat (- i)) else toString_nat (nat i))"

definition padStart :: "nat \<Rightarrow> char \<Rightarrow> string \<Rightarrow> string" where
  "padStart n c str = replicate (n - length str) c @ str"

definition parseInt :: "string \<Rightarrow> nat" where
  "parseInt ds = foldl (\<lambda>acc c. 10 * acc + digit_value c) 0 ds"

text \<open>
  \<^verbatim>\<open>str.match(/-(\d+)$/)\<close>: the capture group of the match, if there is one. The digits
  must reach the end of the string, so the match is the longest run of digits at the end,
  and it needs a hyphen in front of it.
\<close>

definition match_sequence :: "string \<Rightarrow> string option" where
  "match_sequence str =
     (let digits = takeWhile isDigit (rev str);
          rest = dropWhile isDigit (rev str)
      in if digits \<noteq> [] \<and> rest \<noteq> [] \<and> hd rest = CHR ''-'' then Some (rev digits)
         else None)"

definition transaction_type_label :: "transaction_type \<Rightarrow> string" where
  "transaction_type_label tp =
     (case tp of
        PENERIMAAN_DANA \<Rightarrow> ''PENERIMAAN_DANA''
      | PENGELUARAN_DANA \<Rightarrow> ''PENGELUARAN_DANA''
      | PEMINDAH_BUKUAN \<Rightarrow> ''PEMINDAH_BUKUAN''
      | JURNAL_UMUM \<Rightarrow> ''JURNAL_UMUM''
      | JURNAL_KOREKSI \<Rightarrow> ''JURNAL_KOREKSI'')"

text \<open>
  \<^verbatim>\<open>generateTransactionNumber\<close>. The argument \<^verbatim>\<open>tipe\<close> is compared with the enum column
  \<^verbatim>\<open>tipe\<close>, so it ranges over the labels of the enum.
\<close>

definition generateTransactionNumber :: "db \<Rightarrow> transaction_type \<Rightarrow> Date \<Rightarrow> string" where
  "generateTransactionNumber s tp tgl =
     (let year = getFullYear tgl;
          month = padStart 2 CHR ''0'' (toString_nat (getMonth tgl + 1));
          prefix = transaction_type_label tp @ ''-'' @ toString_int year @ month;
          existing = filter (\<lambda>t. tipe t = tp) (transactionHeadersTable s);
          sameMonthTransactions =
            filter (\<lambda>t. getFullYear (tanggal t) = year \<and> getMonth (tanggal t) = getMonth tgl)
              existing;
          maxSequence =
            foldl (\<lambda>maxSequence t.
                     case match_sequence (nomor_transaksi t) of
                       None \<Rightarrow> maxSequence
                     | Some m \<Rightarrow> max maxSequence (parseInt m))
              0 sameMonthTransactions;
          nextSequence = padStart 3 CHR ''0'' (toString_nat (maxSequence + 1))
      in prefix @ ''-'' @ nextSequence)"

section \<open>Report handlers (server/src/handlers/reports.ts)\<close>

record Balance =
  b_account_id :: int
  account_kode :: string
  account_nama :: string
  account_tipe :: account_type
  saldo_awal :: number
  b_debit :: number
  b_kredit :: number
  saldo_akhir :: number

record ReportFilter =
  dari_tanggal :: Date
  sampai_tanggal :: Date
  f_account_id :: "int option"
  f_relation_id :: "int option"

text \<open>
  \<^verbatim>\<open>Array.prototype.sort(compare)\<close> is stable; it is modelled by insertion sort, which
  puts an element in front of the first element that does not compare below it.
\<close>

fun insert_sorted :: "('a \<Rightarrow> 'a \<Rightarrow> int) \<Rightarrow> 'a \<Rightarrow> 'a list \<Rightarrow> 'a list" where
  "insert_sorted compare x [] = [x]"
| "insert_sorted compare x (y # ys) =
     (if compare x y \<le> 0 then x # y # ys else y # insert_sorted compare x ys)"

definition array_sort :: "('a \<Rightarrow> 'a \<Rightarrow> int) \<Rightarrow> 'a list \<Rightarrow> 'a list" where
  "array_sort compare xs = foldr (insert_sorted compare) xs []"

definition typeOrder :: "account_type \<Rightarrow> int" where
  "typeOrder t = (case t of ASET \<Rightarrow> 1 | KEWAJIBAN \<Rightarrow> 2 | EKUITAS \<Rightarrow> 3 | _ \<Rightarrow> 4)"

text \<open>
  The comparison function of the report. \<^verbatim>\<open>localeCompare\<close> is the collation of the
  JavaScript runtime; it is a parameter of the model.
\<close>

definition compare_balance :: "(string \<Rightarrow> string \<Rightarrow> int) \<Rightarrow> Balance \<Rightarrow> Balance \<Rightarrow> int" where
  "compare_balance localeCompare a b =
     (let aOrder = typeOrder (account_tipe a);
          bOrder = typeOrder (account_tipe b)
      in if aOrder \<noteq> bOrder then aOrder - bOrder
         else localeCompare (account_kode a) (account_kode b))"

text \<open>
  The body of the loop of \<^verbatim>\<open>getFinancialPositionReport\<close>: the detail lines of the account,
  joined with their headers and kept when the header is dated up to \<^verbatim>\<open>sampai_tanggal\<close>,
  are summed, and the closing balance follows the account type.
\<close>

definition account_balance :: "ReportFilter \<Rightarrow> db \<Rightarrow> account \<Rightarrow> Balance" where
  "account_balance flt s account =
     (let accountTransactions =
            concat (map (\<lambda>d. map (\<lambda>h. (debit d, kredit d))
                               (filter (\<lambda>h. header_id d = h_id h \<and> account_id d = a_id account \<and>
                                            lte (tanggal h) (sampai_tanggal flt))
                                  (transactionHeadersTable s)))
                        (transactionDetailsTable s));
          totalDebit = foldl (\<lambda>sum tx. sum + parseFloat (fst tx)) 0 accountTransactions;
          totalKredit = foldl (\<lambda>sum tx. sum + parseFloat (snd tx)) 0 accountTransactions;
          saldoAwal = parseFloat (a_saldo_awal account);
          saldoAkhir =
            (if a_tipe account = ASET then saldoAwal + totalDebit - totalKredit
             else if a_tipe account = KEWAJIBAN \<or> a_tipe account = EKUITAS
                  then saldoAwal + totalKredit - totalDebit
             else saldoAwal + totalDebit - totalKredit)
      in \<lparr>b_account_id = a_id account, account_kode = a_kode account,
          account_nama = a_nama account, account_tipe = a_tipe account, saldo_awal = saldoAwal,
          b_debit = totalDebit, b_kredit = totalKredit, saldo_akhir = saldoAkhir\<rparr>)"

definition getFinancialPositionReport ::
  "(string \<Rightarrow> string \<Rightarrow> int) \<Rightarrow> ReportFilter \<Rightarrow> db \<Rightarrow> Balance list" where
  "getFinancialPositionReport localeCompare flt s =
     (let accounts = filter a_is_active (accountsTable s);
          balanceSheetAccounts =
            filter (\<lambda>account. a_tipe account \<in> set [ASET, KEWAJIBAN, EKUITAS]) accounts;
          results = map (account_balance flt s) balanceSheetAccounts
      in array_sort (compare_balance localeCompare) results)"

text \<open>
  \<^verbatim>\<open>getIncomeStatementReport\<close>: the body is a placeholder that returns the empty array.
\<close>

definition getIncomeStatementReport :: "ReportFilter \<Rightarrow> db \<Rightarrow> Balance list" where
  "getIncomeStatementReport flt s = []"

section \<open>Sequences of operations\<close>

text \<open>
  The exported operations of the transaction handlers that write to the database, and the
  state after a call (whether it returned or threw).
\<close>

datatype operation =
    CreateTransactionHeader CreateTransactionHeaderInput
  | CreateCompleteTransaction CreateCompleteTransactionInput
  | AddTransactionDetail CreateTransactionDetailInput
  | UpdateTransactionHeader int PartialTransactionHeaderInput
  | UpdateTransactionDetail int PartialTransactionDetailInput
  | DeleteTransactionDetail int
  | DeleteTransaction int
  | PostTransaction int
  | UnpostTransaction int

fun run :: "Date \<Rightarrow> operation \<Rightarrow> db \<Rightarrow> db" where
  "run now (CreateTransactionHeader input) s = snd (createTransactionHeader now input s)"
| "run now (CreateCompleteTransaction input) s = snd (createCompleteTransaction now input s)"
| "run now (AddTransactionDetail input) s = snd (addTransactionDetail now input s)"
| "run now (UpdateTransactionHeader i input) s = snd (updateTransactionHeader now i input s)"
| "run now (UpdateTransactionDetail i input) s = snd (updateTransactionDetail now i input s)"
| "run now (DeleteTransactionDetail i) s = snd (deleteTransactionDetail now i s)"
| "run now (DeleteTransaction i) s = snd (deleteTransaction i s)"
| "run now (PostTransaction i) s = snd (postTransaction now i s)"
| "run now (UnpostTransaction i) s = snd (unpostTransaction now i s)"

text \<open>A sequence of calls, each with the time at which it runs.\<close>

fun run_all :: "(Date \<times> operation) list \<Rightarrow> db \<Rightarrow> db" where
  "run_all [] s = s"
| "run_all (call # calls) s = run_all calls (run (fst call) (snd call) s)"

section \<open>Notions of the specification\<close>

text \<open>The detail rows of a header, and the primary keys of the two transaction tables.\<close>

definition details_of :: "db \<Rightarrow> int \<Rightarrow> numeric transaction_detail list" where
  "details_of s i = filter (\<lambda>d. header_id d = i) (transactionDetailsTable s)"

definition primary_keys :: "db \<Rightarrow> bool" where
  "primary_keys s \<longleftrightarrow>
     distinct (map h_id (transactionHeadersTable s)) \<and>
     distinct (map d_id (transactionDetailsTable s))"

text \<open>The header rows after an update that marks the header \<open>i\<close> posted.\<close>

definition mark_posted ::
  "Date \<Rightarrow> int \<Rightarrow> numeric transaction_header list \<Rightarrow> numeric transaction_header list" where
  "mark_posted now i hs =
     map (\<lambda>h. if h_id h = i then h\<lparr>is_posted := True, updated_at := now\<rparr> else h) hs"

text \<open>
  Header totals agree with the detail rows: for every stored header, \<^verbatim>\<open>total_debit\<close> is
  the sum of \<^verbatim>\<open>debit\<close> and \<^verbatim>\<open>total_kredit\<close> the sum of \<^verbatim>\<open>kredit\<close> over its detail rows.
\<close>

definition totals_match :: "db \<Rightarrow> bool" where
  "totals_match s \<longleftrightarrow>
     (\<forall>h \<in> set (transactionHeadersTable s).
        total_debit h = sum_list (map debit (details_of s (h_id h))) \<and>
        total_kredit h = sum_list (map kredit (details_of s (h_id h))))"

text \<open>
  The serial counters are ahead of every id in use, and every detail row points at a header
  id that has been handed out.
\<close>

definition serials_fresh :: "db \<Rightarrow> bool" where
  "serials_fresh s \<longleftrightarrow>
     (\<forall>h \<in> set (transactionHeadersTable s). h_id h < next_header_id s) \<and>
     (\<forall>d \<in> set (transactionDetailsTable s).
        d_id d < next_detail_id s \<and> header_id d < next_header_id s)"






text \<open>
  The header row that \<^verbatim>\<open>createCompleteTransaction\<close> is to store for an input, and the
  existence of everything the input refers to: the user, the relation when one is given
  (an id other than 0), and the account of every line.
\<close>

definition created_header ::
  "Date \<Rightarrow> CreateCompleteTransactionInput \<Rightarrow> db \<Rightarrow> numeric transaction_header" where
  "created_header now input s =
     \<lparr>h_id = next_header_id s, nomor_transaksi = in_nomor_transaksi (in_header input),
      tanggal = in_tanggal (in_header input), tipe = in_tipe (in_header input),
      h_deskripsi = in_deskripsi (in_header input),
      total_debit = to_numeric (sum_list (map in_debit (in_details input))),
      total_kredit = to_numeric (sum_list (map in_kredit (in_details input))),
      relation_id = in_relation_id (in_header input), user_id = in_user_id (in_header input),
      is_posted = False, h_created_at = now, updated_at = now\<rparr>"


text \<open>
  A header id is posted in a state when a stored header with that id has
  \<^verbatim>\<open>is_posted = true\<close>.
\<close>

definition posted :: "db \<Rightarrow> int \<Rightarrow> bool" where
  "posted s i \<longleftrightarrow> (\<exists>h \<in> set (transactionHeadersTable s). h_id h = i \<and> is_posted h)"

text \<open>
  A well-formed database: the primary keys are unique and the serial counters are fresh.
  The empty database is well-formed and every operation keeps it so.
\<close>

definition well_formed :: "db \<Rightarrow> bool" where
  "well_formed s \<longleftrightarrow> primary_keys s \<and> serials_fresh s"


text \<open>
  An amount with at most two decimals: writing it to a numeric column and reading it back
  gives the same number.
\<close>

definition two_decimals :: "number \<Rightarrow> bool" where
  "two_decimals x \<longleftrightarrow> parseFloat (to_numeric x) = x"

text \<open>
  An operation whose amounts, if it is \<^verbatim>\<open>createCompleteTransaction\<close>, have at most two
  decimals.
\<close>

definition lines_two_decimals :: "operation \<Rightarrow> bool" where
  "lines_two_decimals op \<longleftrightarrow>
     (case op of
        CreateCompleteTransaction input \<Rightarrow>
          (\<forall>line \<in> set (in_details input).
             two_decimals (in_debit line) \<and> two_decimals (in_kredit line))
      | _ \<Rightarrow> True)"

section \<open>Test data (server/src/tests/transactions.test.ts)\<close>

text \<open>
  The state that \<^verbatim>\<open>createTestData\<close> sets up (one user, one relation, a cash account and a
  revenue account), the input of \<^verbatim>\<open>createTestTransactionInput\<close>, and the state after
  \<^verbatim>\<open>createCompleteTransaction\<close> has stored that input.
\<close>

definition test_date :: Date where
  "test_date = \<lparr>getFullYear = 2023, getMonth = 11, within_month = 0\<rparr>"

definition test_now :: Date where
  "test_now = \<lparr>getFullYear = 2024, getMonth = 0, within_month = 14\<rparr>"

definition test_later :: Date where
  "test_later = \<lparr>getFullYear = 2024, getMonth = 0, within_month = 15\<rparr>"

definition test_db :: db where
  "test_db =
     \<lparr>usersTable = [1], relationsTable = [1],
      accountsTable =
        [\<lparr>a_id = 1, a_kode = ''1001'', a_nama = ''Cash Account'', a_tipe = ASET,
          a_saldo_awal = 100000000, a_is_active = True\<rparr>,
         \<lparr>a_id = 2, a_kode = ''4001'', a_nama = ''Revenue Account'', a_tipe = PENDAPATAN,
          a_saldo_awal = 0, a_is_active = True\<rparr>],
      transactionHeadersTable = [], transactionDetailsTable = [],
      next_header_id = 1, next_detail_id = 1\<rparr>"

definition test_header_input :: CreateTransactionHeaderInput where
  "test_header_input =
     \<lparr>in_nomor_transaksi = ''TXN-202312-001'', in_tanggal = test_date, in_tipe = JURNAL_UMUM,
      in_deskripsi = ''Test Transaction'', in_relation_id = Some 1, in_user_id = 1\<rparr>"

definition test_debit_line :: "number \<Rightarrow> CreateTransactionDetailInput" where
  "test_debit_line x =
     \<lparr>in_header_id = 0, in_account_id = 1, in_detail_deskripsi = ''Debit entry'',
      in_debit = x, in_kredit = 0, in_urutan = 1\<rparr>"

definition test_kredit_line :: "number \<Rightarrow> CreateTransactionDetailInput" where
  "test_kredit_line x =
     \<lparr>in_header_id = 0, in_account_id = 2, in_detail_deskripsi = ''Credit entry'',
      in_debit = 0, in_kredit = x, in_urutan = 2\<rparr>"

definition test_input :: CreateCompleteTransactionInput where
  "test_input =
     \<lparr>in_header = test_header_input,
      in_details = [test_debit_line 500000, test_kredit_line 500000]\<rparr>"

definition test_header :: "numeric transaction_header" where
  "test_header =
     \<lparr>h_id = 1, nomor_transaksi = ''TXN-202312-001'', tanggal = test_date, tipe = JURNAL_UMUM,
      h_deskripsi = ''Test Transaction'', total_debit = 50000000, total_kredit = 50000000,
      relation_id = Some 1, user_id = 1, is_posted = False, h_created_at = test_now,
      updated_at = test_now\<rparr>"

definition test_details :: "numeric transaction_detail list" where
  "test_details =
     [\<lparr>d_id = 1, header_id = 1, account_id = 1, d_deskripsi = ''Debit entry'',
       debit = 50000000, kredit = 0, urutan = 1, d_created_at = test_now\<rparr>,
      \<lparr>d_id = 2, header_id = 1, account_id = 2, d_deskripsi = ''Credit entry'',
       debit = 0, kredit = 50000000, urutan = 2, d_created_at = test_now\<rparr>]"

definition test_db_created :: db where
  "test_db_created =
     test_db\<lparr>transactionHeadersTable := [test_header], transactionDetailsTable := test_details,
             next_header_id := 2, next_detail_id := 3\<rparr>"

definition test_db_posted :: db where
  "test_db_posted =
     test_db_created\<lparr>transactionHeadersTable :=
       [test_header\<lparr>is_posted := True, updated_at := test_later\<rparr>]\<rparr>"


definition test_header_only :: "numeric transaction_header" where
  "test_header_only =
     \<lparr>h_id = 1, nomor_transaksi = ''HDR-001'', tanggal = test_date, tipe = JURNAL_UMUM,
      h_deskripsi = ''Header only transaction'', total_debit = 0, total_kredit = 0,
      relation_id = Some 1, user_id = 1, is_posted = False, h_created_at = test_now,
      updated_at = test_now\<rparr>"

definition test_db_header_only :: db where
  "test_db_header_only =
     test_db\<lparr>transactionHeadersTable := [test_header_only], next_header_id := 2\<rparr>"

text \<open>
  The inputs of the tests that try to change a posted transaction.
\<close>

definition test_header_update :: PartialTransactionHeaderInput where
  "test_header_update =
     \<lparr>upd_nomor_transaksi = None, upd_tanggal = None, upd_tipe = None,
      upd_deskripsi = Some ''Should not update'', upd_relation_id = None, upd_user_id = None\<rparr>"

definition test_added_line :: CreateTransactionDetailInput where
  "test_added_line =
     \<lparr>in_header_id = 1, in_account_id = 1, in_detail_deskripsi = ''Should not be added'',
      in_debit = 100000, in_kredit = 0, in_urutan = 3\<rparr>"

definition test_detail_update :: PartialTransactionDetailInput where
  "test_detail_update =
     \<lparr>upd_header_id = None, upd_account_id = None, upd_detail_deskripsi = None,
      upd_debit = Some 600000, upd_kredit = None, upd_urutan = None\<rparr>"


definition test_input_no_lines :: CreateCompleteTransactionInput where
  "test_input_no_lines = \<lparr>in_header = test_header_input, in_details = []\<rparr>"


text \<open>The input of the test that creates a header alone.\<close>

definition test_header_only_input :: CreateTransactionHeaderInput where
  "test_header_only_input =
     \<lparr>in_nomor_transaksi = ''HDR-001'', in_tanggal = test_date, in_tipe = JURNAL_UMUM,
      in_deskripsi = ''Header only transaction'', in_relation_id = Some 1, in_user_id = 1\<rparr>"

text \<open>
  The test of \<^verbatim>\<open>generateTransactionNumber\<close>: the test transaction stored under the first
  generated number, and the date the numbers are asked for.
\<close>

definition test_db_numbered :: db where
  "test_db_numbered =
     test_db\<lparr>transactionHeadersTable :=
                [test_header\<lparr>nomor_transaksi := ''JURNAL_UMUM-202312-001''\<rparr>],
             transactionDetailsTable := test_details, next_header_id := 2, next_detail_id := 3\<rparr>"


text \<open>The report period of December 2023.\<close>

definition test_filter :: ReportFilter where
  "test_filter =
     \<lparr>dari_tanggal = test_date,
      sampai_tanggal = \<lparr>getFullYear = 2023, getMonth = 11, within_month = 30\<rparr>,
      f_account_id = None, f_relation_id = None\<rparr>"

text \<open>
  A stand-in for \<^verbatim>\<open>localeCompare\<close> in the examples: the comparison of two strings
  character by character.
\<close>

fun compare_strings :: "string \<Rightarrow> string \<Rightarrow> int" where
  "compare_strings [] [] = 0"
| "compare_strings [] (y # ys) = - 1"
| "compare_strings (x # xs) [] = 1"
| "compare_strings (x # xs) (y # ys) =
     (if (of_char x :: nat) < of_char y then - 1
      else if (of_char y :: nat) < of_char x then 1
      else compare_strings xs ys)"

text \<open>
  The data of the report tests (server/src/tests/reports.test.ts): six accounts, one of
  them inactive and one a revenue account, and one transaction of 15 January 2024 with
  three lines.
\<close>

definition report_accounts :: "account list" where
  "report_accounts =
     [\<lparr>a_id = 1, a_kode = ''1100'', a_nama = ''Kas'', a_tipe = ASET,
       a_saldo_awal = 1000000, a_is_active = True\<rparr>,
      \<lparr>a_id = 2, a_kode = ''1200'', a_nama = ''Piutang Usaha'', a_tipe = ASET,
       a_saldo_awal = 500000, a_is_active = True\<rparr>,
      \<lparr>a_id = 3, a_kode = ''2100'', a_nama = ''Hutang Usaha'', a_tipe = KEWAJIBAN,
       a_saldo_awal = 300000, a_is_active = True\<rparr>,
      \<lparr>a_id = 4, a_kode = ''3100'', a_nama = ''Modal'', a_tipe = EKUITAS,
       a_saldo_awal = 1200000, a_is_active = True\<rparr>,
      \<lparr>a_id = 5, a_kode = ''4100'', a_nama = ''Pendapatan Jasa'', a_tipe = PENDAPATAN,
       a_saldo_awal = 0, a_is_active = True\<rparr>,
      \<lparr>a_id = 6, a_kode = ''1150'', a_nama = ''Bank BCA'', a_tipe = ASET,
       a_saldo_awal = 0, a_is_active = False\<rparr>]"

definition report_db :: db where
  "report_db =
     \<lparr>usersTable = [1], relationsTable = [], accountsTable = report_accounts,
      transactionHeadersTable =
        [\<lparr>h_id = 1, nomor_transaksi = ''TRX001'',
          tanggal = \<lparr>getFullYear = 2024, getMonth = 0, within_month = 14\<rparr>,
          tipe = JURNAL_UMUM, h_deskripsi = ''Test Transaction'', total_debit = 100000,
          total_kredit = 100000, relation_id = None, user_id = 1, is_posted = True,
          h_created_at = test_now, updated_at = test_now\<rparr>],
      transactionDetailsTable =
        [\<lparr>d_id = 1, header_id = 1, account_id = 1, d_deskripsi = ''Penerimaan kas'',
          debit = 50000, kredit = 0, urutan = 1, d_created_at = test_now\<rparr>,
         \<lparr>d_id = 2, header_id = 1, account_id = 2, d_deskripsi = ''Pembayaran piutang'',
          debit = 0, kredit = 30000, urutan = 2, d_created_at = test_now\<rparr>,
         \<lparr>d_id = 3, header_id = 1, account_id = 3, d_deskripsi = ''Penambahan hutang'',
          debit = 0, kredit = 20000, urutan = 3, d_created_at = test_now\<rparr>],
      next_header_id = 2, next_detail_id = 4\<rparr>"

definition report_filter :: ReportFilter where
  "report_filter =
     \<lparr>dari_tanggal = \<lparr>getFullYear = 2024, getMonth = 0, within_month = 0\<rparr>,
      sampai_tanggal = \<lparr>getFullYear = 2024, getMonth = 0, within_month = 30\<rparr>,
      f_account_id = None, f_relation_id = None\<rparr>"

text \<open>
  An input with amounts below one hundredth: two debit lines of 0.004 and a kredit line of
  0.008.
\<close>

definition test_input_sub_cent :: CreateCompleteTransactionInput where
  "test_input_sub_cent =
     \<lparr>in_header = test_header_input,
      in_details = [test_debit_line (4 / 1000), test_debit_line (4 / 1000),
                    test_kredit_line (8 / 1000)]\<rparr>"

section \<open>Properties\<close>

subsection \<open>Sums and amounts\<close>

lemma foldl_plus_sum_list:
  "foldl (\<lambda>sum x. sum + f x) a xs = a + sum_list (map f xs)"
  for a :: "'a::comm_monoid_add"
  by (induction xs arbitrary: a) (simp_all add: add.assoc)

lemma sum_list_parseFloat:
  "sum_list (map (\<lambda>x. parseFloat (f x)) xs) = parseFloat (sum_list (map f xs))"
  by (induction xs) (simp_all add: parseFloat_def add_divide_distrib)

lemma to_numeric_parseFloat: "to_numeric (parseFloat c) = c"
proof -
  have "\<lfloor>(of_int c :: rat) + 1 / 2\<rfloor> = c" by linarith
  moreover have "\<lfloor>- (of_int c :: rat) + 1 / 2\<rfloor> = - c" by linarith
  ultimately show ?thesis by (simp add: to_numeric_def parseFloat_def)
qed

text \<open>Two stored amounts that are less than 0.01 apart are equal.\<close>

lemma parseFloat_close_iff:
  "\<bar>parseFloat a - parseFloat b\<bar> < 1 / 100 \<longleftrightarrow> a = b"
proof
  assume close: "\<bar>parseFloat a - parseFloat b\<bar> < 1 / 100"
  have "parseFloat a - parseFloat b = (of_int a - of_int b) / 100"
    by (simp add: parseFloat_def diff_divide_distrib)
  then have "\<bar>parseFloat a - parseFloat b\<bar> = \<bar>of_int a - of_int b :: rat\<bar> / 100"
    by (simp only: abs_divide)
  with close have small: "\<bar>of_int a - of_int b :: rat\<bar> < 1" by simp
  show "a = b"
  proof (rule ccontr)
    assume "a \<noteq> b"
    then have "1 \<le> \<bar>a - b\<bar>" by linarith
    then have "(1::rat) \<le> of_int \<bar>a - b\<bar>" by (simp only: of_int_1_le_iff)
    then have "(1::rat) \<le> \<bar>of_int a - of_int b\<bar>" by simp
    with small show False by linarith
  qed
next
  assume "a = b"
  then show "\<bar>parseFloat a - parseFloat b\<bar> < 1 / 100" by simp
qed

lemma to_numeric_500000: "to_numeric 500000 = 50000000"
  by code_simp

lemma to_numeric_0: "to_numeric 0 = 0"
  by code_simp

lemma filter_primary_key:
  "distinct (map f xs) \<Longrightarrow> x \<in> set xs \<Longrightarrow> filter (\<lambda>y. f y = f x) xs = [x]"
proof (induction xs)
  case Nil
  then show ?case by simp
next
  case (Cons a xs)
  show ?case
  proof (cases "a = x")
    case True
    with Cons.prems have "f x \<notin> set (map f xs)" by simp
    then have "\<forall>y\<in>set xs. f y \<noteq> f x" by (metis image_eqI set_map)
    then have "filter (\<lambda>y. f y = f x) xs = []" by (simp add: filter_empty_conv)
    with True show ?thesis by simp
  next
    case False
    with Cons.prems have "x \<in> set xs" "f a \<noteq> f x" by auto
    with Cons show ?thesis by simp
  qed
qed

subsection \<open>The test data, run through the model\<close>

lemma createCompleteTransaction_test:
  "createCompleteTransaction test_now test_input test_db =
     (Inr (parse_header test_header, map parse_detail test_details), test_db_created)"
  by (simp add: createCompleteTransaction_def test_input_def test_db_def test_header_input_def
      test_debit_line_def test_kredit_line_def user_exists_def relation_exists_def
      account_exists_def insert_header_def insert_details_def detail_row_def
      test_header_def test_details_def test_db_created_def to_numeric_500000 to_numeric_0
      Let_def)




subsection \<open>Posting\<close>

lemma validateTransactionBalance_iff:
  "validateTransactionBalance s i \<longleftrightarrow>
     sum_list (map debit (details_of s i)) = sum_list (map kredit (details_of s i))"
  by (simp only: validateTransactionBalance_def details_of_def Let_def foldl_plus_sum_list
      sum_list_parseFloat parseFloat_close_iff add_0_left)


lemma postTransaction_balanced:
  assumes "validateTransactionBalance s i" and "primary_keys s"
    and "h \<in> set (transactionHeadersTable s)" and "h_id h = i"
  shows "postTransaction now i s =
           (Inr (parse_header (h\<lparr>is_posted := True, updated_at := now\<rparr>)),
            s\<lparr>transactionHeadersTable := mark_posted now i (transactionHeadersTable s)\<rparr>)"
proof -
  from assms have "filter (\<lambda>y. h_id y = i) (transactionHeadersTable s) = [h]"
    using filter_primary_key [of h_id "transactionHeadersTable s" h]
    by (auto simp: primary_keys_def)
  with assms(1) show ?thesis
    by (simp add: postTransaction_def mark_posted_def Let_def)
qed

lemma mark_posted_member:
  "h \<in> set hs \<Longrightarrow> h_id h = i \<Longrightarrow>
   h\<lparr>is_posted := True, updated_at := now\<rparr> \<in> set (mark_posted now i hs)"
  by (force simp: mark_posted_def)



lemma filter_primary_key':
  "distinct (map f xs) \<Longrightarrow> x \<in> set xs \<Longrightarrow> filter (\<lambda>y. f x = f y) xs = [x]"
  using filter_primary_key [of f xs x] by (simp add: eq_commute [of "f x"])

lemma header_lookup:
  "primary_keys s \<Longrightarrow> h \<in> set (transactionHeadersTable s) \<Longrightarrow>
   filter (\<lambda>y. h_id y = h_id h) (transactionHeadersTable s) = [h]"
  by (simp add: primary_keys_def filter_primary_key)

lemma join_detail_header_lookup:
  assumes "primary_keys s" and "h \<in> set (transactionHeadersTable s)"
    and "d \<in> set (transactionDetailsTable s)" and "header_id d = h_id h"
  shows "join_detail_header s (d_id d) = [(d, h)]"
proof -
  from assms have "filter (\<lambda>y. d_id y = d_id d) (transactionDetailsTable s) = [d]"
    by (simp add: primary_keys_def filter_primary_key)
  moreover from assms have "filter (\<lambda>y. header_id d = h_id y) (transactionHeadersTable s) = [h]"
    by (simp add: primary_keys_def filter_primary_key')
  ultimately show ?thesis by (simp add: join_detail_header_def)
qed

lemma validateTransactionBalance_no_details:
  "details_of s i = [] \<Longrightarrow> validateTransactionBalance s i"
  by (simp add: validateTransactionBalance_iff)

text \<open>
  Claim C10. For a header that has no detail rows, \<^verbatim>\<open>validateTransactionBalance\<close>
  returns true (both sums are 0), and so \<^verbatim>\<open>postTransaction\<close> on such a stored header
  does not raise the balance error: it marks the header posted and returns it.
\<close>

theorem postTransaction_without_details:
  "(details_of s (h_id h) = [] \<longrightarrow> validateTransactionBalance s (h_id h)) \<and>
   (details_of s (h_id h) = [] \<and> primary_keys s \<and> h \<in> set (transactionHeadersTable s) \<longrightarrow>
      postTransaction now (h_id h) s =
        (Inr (parse_header (h\<lparr>is_posted := True, updated_at := now\<rparr>)),
         s\<lparr>transactionHeadersTable := mark_posted now (h_id h) (transactionHeadersTable s)\<rparr>) \<and>
      h\<lparr>is_posted := True, updated_at := now\<rparr>
        \<in> set (mark_posted now (h_id h) (transactionHeadersTable s)))"
  using validateTransactionBalance_no_details [of s "h_id h"]
    postTransaction_balanced [of s "h_id h" h now]
    mark_posted_member [of h "transactionHeadersTable s" "h_id h" now]
  by blast

theorem postTransaction_without_details_witness:
  "details_of test_db_header_only 1 = [] \<and>
   validateTransactionBalance test_db_header_only 1 \<and>
   postTransaction test_later 1 test_db_header_only =
     (Inr (parse_header (test_header_only\<lparr>is_posted := True, updated_at := test_later\<rparr>)),
      test_db_header_only\<lparr>transactionHeadersTable :=
        [test_header_only\<lparr>is_posted := True, updated_at := test_later\<rparr>]\<rparr>)"
proof -
  have d: "details_of test_db_header_only (h_id test_header_only) = []"
    by (simp add: details_of_def test_db_header_only_def test_db_def)
  have k: "primary_keys test_db_header_only"
    by (simp add: primary_keys_def test_db_header_only_def test_db_def)
  have m: "test_header_only \<in> set (transactionHeadersTable test_db_header_only)"
    by (simp add: test_db_header_only_def)
  have i: "h_id test_header_only = 1" by (simp add: test_header_only_def)
  have p: "mark_posted test_later 1 (transactionHeadersTable test_db_header_only) =
        [test_header_only\<lparr>is_posted := True, updated_at := test_later\<rparr>]"
    by (simp add: mark_posted_def test_db_header_only_def test_header_only_def)
  show ?thesis
    using postTransaction_without_details [of test_db_header_only test_header_only test_later]
      d k m i p
    by simp
qed

text \<open>
  Claim C3. For every stored header with \<^verbatim>\<open>is_posted = true\<close>, each of
  \<^verbatim>\<open>updateTransactionHeader\<close>, \<^verbatim>\<open>addTransactionDetail\<close> and \<^verbatim>\<open>deleteTransaction\<close> on that
  header, and each of \<^verbatim>\<open>updateTransactionDetail\<close> and \<^verbatim>\<open>deleteTransactionDetail\<close> on any
  of its detail rows, throws and leaves the database as it was: the header and all of its
  detail rows are unchanged.
\<close>

theorem posted_transaction_immutable:
  "primary_keys s \<and> h \<in> set (transactionHeadersTable s) \<and> is_posted h \<longrightarrow>
     updateTransactionHeader now (h_id h) hinput s = (Inl CannotUpdatePosted, s) \<and>
     (in_header_id dinput = h_id h \<longrightarrow>
        addTransactionDetail now dinput s = (Inl CannotAddDetailToPosted, s)) \<and>
     deleteTransaction (h_id h) s = (Inl CannotDeletePosted, s) \<and>
     (\<forall>d \<in> set (details_of s (h_id h)).
        updateTransactionDetail now (d_id d) pinput s = (Inl CannotUpdateDetailOfPosted, s) \<and>
        deleteTransactionDetail now (d_id d) s = (Inl CannotDeleteDetailFromPosted, s))"
proof (intro impI)
  assume a: "primary_keys s \<and> h \<in> set (transactionHeadersTable s) \<and> is_posted h"
  then have f: "filter (\<lambda>y. h_id y = h_id h) (transactionHeadersTable s) = [h]"
    by (simp add: header_lookup)
  have 1: "updateTransactionHeader now (h_id h) hinput s = (Inl CannotUpdatePosted, s)"
    using a by (simp add: updateTransactionHeader_def f)
  have 2: "in_header_id dinput = h_id h \<longrightarrow>
        addTransactionDetail now dinput s = (Inl CannotAddDetailToPosted, s)"
    using a by (simp add: addTransactionDetail_def f)
  have 3: "deleteTransaction (h_id h) s = (Inl CannotDeletePosted, s)"
    using a by (simp add: deleteTransaction_def f)
  have 4: "\<forall>d \<in> set (details_of s (h_id h)).
        updateTransactionDetail now (d_id d) pinput s = (Inl CannotUpdateDetailOfPosted, s) \<and>
        deleteTransactionDetail now (d_id d) s = (Inl CannotDeleteDetailFromPosted, s)"
  proof
    fix d assume "d \<in> set (details_of s (h_id h))"
    then have "d \<in> set (transactionDetailsTable s)" "header_id d = h_id h"
      by (simp_all add: details_of_def)
    with a have "join_detail_header s (d_id d) = [(d, h)]"
      by (simp add: join_detail_header_lookup)
    with a show "updateTransactionDetail now (d_id d) pinput s = (Inl CannotUpdateDetailOfPosted, s) \<and>
        deleteTransactionDetail now (d_id d) s = (Inl CannotDeleteDetailFromPosted, s)"
      by (simp add: updateTransactionDetail_def deleteTransactionDetail_def)
  qed
  from 1 2 3 4 show "updateTransactionHeader now (h_id h) hinput s = (Inl CannotUpdatePosted, s) \<and>
     (in_header_id dinput = h_id h \<longrightarrow>
        addTransactionDetail now dinput s = (Inl CannotAddDetailToPosted, s)) \<and>
     deleteTransaction (h_id h) s = (Inl CannotDeletePosted, s) \<and>
     (\<forall>d \<in> set (details_of s (h_id h)).
        updateTransactionDetail now (d_id d) pinput s = (Inl CannotUpdateDetailOfPosted, s) \<and>
        deleteTransactionDetail now (d_id d) s = (Inl CannotDeleteDetailFromPosted, s))"
    by blast
qed

theorem posted_transaction_immutable_witness:
  "updateTransactionHeader test_later 1 test_header_update test_db_posted =
     (Inl CannotUpdatePosted, test_db_posted) \<and>
   addTransactionDetail test_later test_added_line test_db_posted =
     (Inl CannotAddDetailToPosted, test_db_posted) \<and>
   deleteTransaction 1 test_db_posted = (Inl CannotDeletePosted, test_db_posted) \<and>
   updateTransactionDetail test_later 1 test_detail_update test_db_posted =
     (Inl CannotUpdateDetailOfPosted, test_db_posted) \<and>
   deleteTransactionDetail test_later 2 test_db_posted =
     (Inl CannotDeleteDetailFromPosted, test_db_posted)"
proof -
  let ?h = "test_header\<lparr>is_posted := True, updated_at := test_later\<rparr>"
  have k: "primary_keys test_db_posted"
    by (simp add: primary_keys_def test_db_posted_def test_db_created_def test_db_def
        test_details_def)
  have m: "?h \<in> set (transactionHeadersTable test_db_posted)" "is_posted ?h" "h_id ?h = 1"
    by (simp_all add: test_db_posted_def test_header_def)
  have l: "in_header_id test_added_line = 1" by (simp add: test_added_line_def)
  have d: "details_of test_db_posted 1 = test_details"
    by (simp add: details_of_def test_db_posted_def test_db_created_def test_db_def
        test_details_def)
  show ?thesis
    using posted_transaction_immutable [of test_db_posted ?h test_later test_header_update
        test_added_line test_detail_update] k m l d
    by (simp add: test_details_def)
qed

subsection \<open>Creating a complete transaction\<close>

lemma length_detail_rows: "length (detail_rows now hid i vals) = length vals"
  by (induction vals arbitrary: i) simp_all

lemma nth_detail_rows:
  "k < length vals \<Longrightarrow>
   detail_rows now hid i vals ! k = detail_row now hid (i + int k) (vals ! k)"
proof (induction vals arbitrary: i k)
  case Nil
  then show ?case by simp
next
  case (Cons v vals)
  then show ?case by (cases k) (simp_all add: add.assoc)
qed








subsection \<open>Posted headers along operations\<close>

lemma posted_append:
  "posted s i \<Longrightarrow> transactionHeadersTable s' = transactionHeadersTable s @ hs \<Longrightarrow> posted s' i"
  by (auto simp: posted_def)

lemma posted_map:
  assumes "posted s i"
    and "transactionHeadersTable s' = map (\<lambda>h. if P h then f h else h) (transactionHeadersTable s)"
    and "\<And>h. h_id (f h) = h_id h" and "\<And>h. is_posted h \<Longrightarrow> is_posted (f h)"
  shows "posted s' i"
proof -
  from assms(1) obtain h where h: "h \<in> set (transactionHeadersTable s)" "h_id h = i" "is_posted h"
    by (auto simp: posted_def)
  let ?h = "if P h then f h else h"
  from h(1) assms(2) have "?h \<in> set (transactionHeadersTable s')" by simp
  moreover from h assms(3,4) have "h_id ?h = i" "is_posted ?h" by simp_all
  ultimately show ?thesis unfolding posted_def by blast
qed

lemma posted_updateHeaderTotals:
  "posted s i \<Longrightarrow> posted (updateHeaderTotals now j s) i"
  by (rule posted_map [where P = "\<lambda>h. h_id h = j"
        and f = "\<lambda>h. h\<lparr>total_debit := to_numeric (foldl (\<lambda>sum detail. sum + parseFloat (debit detail)) 0
                 (filter (\<lambda>d. header_id d = j) (transactionDetailsTable s))),
              total_kredit := to_numeric (foldl (\<lambda>sum detail. sum + parseFloat (kredit detail)) 0
                 (filter (\<lambda>d. header_id d = j) (transactionDetailsTable s))),
              updated_at := now\<rparr>"])
     (simp_all add: updateHeaderTotals_def Let_def)

lemma posted_details_update:
  "posted s i \<Longrightarrow> posted (s\<lparr>transactionDetailsTable := ds\<rparr>) i"
  by (simp add: posted_def)

lemma posted_serial_update:
  "posted s i \<Longrightarrow> posted (s\<lparr>next_header_id := n\<rparr>) i"
  by (simp add: posted_def)

lemma posted_insert_header:
  "posted s i \<Longrightarrow> posted (snd (insert_header now nomor tgl tp desk td tk rel usr s)) i"
  by (auto simp: insert_header_def Let_def posted_def)

lemma posted_insert_details:
  "posted s i \<Longrightarrow> posted (snd (insert_details now hid vals s)) i"
  by (auto simp: insert_details_def Let_def posted_def)

lemma posted_createTransactionHeader:
  "posted s i \<Longrightarrow> posted (snd (createTransactionHeader now input s)) i"
  using posted_insert_header [of s i now "in_nomor_transaksi input" "in_tanggal input"
      "in_tipe input" "in_deskripsi input" 0 0 "in_relation_id input" "in_user_id input"]
  by (auto simp: createTransactionHeader_def split: prod.splits sum.splits)

lemma posted_createCompleteTransaction:
  assumes "posted s i"
  shows "posted (snd (createCompleteTransaction now input s)) i"
proof (cases "find (\<lambda>detail. \<not> account_exists s (in_account_id detail)) (in_details input)")
  case (Some detail)
  with assms show ?thesis
    by (simp add: createCompleteTransaction_def Let_def)
next
  case None
  let ?ins = "insert_header now
                          (in_nomor_transaksi (in_header input)) (in_tanggal (in_header input))
                          (in_tipe (in_header input)) (in_deskripsi (in_header input))
                          (to_numeric (foldl (\<lambda>sum detail. sum + in_debit detail) 0 (in_details input)))
                          (to_numeric (foldl (\<lambda>sum detail. sum + in_kredit detail) 0 (in_details input)))
                          (in_relation_id (in_header input)) (in_user_id (in_header input)) s"
  obtain r1 s1 where i1: "?ins = (r1, s1)" by (cases ?ins)
  from assms have "posted (snd ?ins) i" by (rule posted_insert_header)
  with i1 have p1: "posted s1 i" by simp
  show ?thesis
  proof (cases r1)
    case (Inl e)
    with assms i1 p1 None show ?thesis
      by (simp add: createCompleteTransaction_def Let_def)
  next
    case (Inr h)
    obtain r2 s2 where i2: "insert_details now (h_id h) (in_details input) s1 = (r2, s2)"
      by (cases "insert_details now (h_id h) (in_details input) s1")
    from p1 have "posted (snd (insert_details now (h_id h) (in_details input) s1)) i"
      by (rule posted_insert_details)
    with i2 have p2: "posted s2 i" by simp
    from assms i1 i2 Inr p2 None show ?thesis
      by (cases r2) (simp_all add: createCompleteTransaction_def Let_def)
  qed
qed

lemma posted_addTransactionDetail:
  assumes "posted s i"
  shows "posted (snd (addTransactionDetail now input s)) i"
proof -
  obtain r1 s1 where i1: "insert_details now (in_header_id input) [input] s = (r1, s1)"
    by (cases "insert_details now (in_header_id input) [input] s")
  from assms have "posted (snd (insert_details now (in_header_id input) [input] s)) i"
    by (rule posted_insert_details)
  with i1 have p1: "posted s1 i" by simp
  then have p2: "posted (updateHeaderTotals now (in_header_id input) s1) i"
    by (rule posted_updateHeaderTotals)
  from assms i1 p1 p2 show ?thesis
    by (cases r1) (simp_all add: addTransactionDetail_def Let_def)
qed

lemma posted_updateTransactionHeader:
  assumes "posted s i"
  shows "posted (snd (updateTransactionHeader now j input s)) i"
proof -
  have "posted (s\<lparr>transactionHeadersTable :=
                   map (\<lambda>h. if h_id h = j then set_header now input h else h)
                     (transactionHeadersTable s)\<rparr>) i"
    using assms
    by (rule posted_map [where P = "\<lambda>h. h_id h = j" and f = "set_header now input"])
       (simp_all add: set_header_def)
  with assms show ?thesis
    by (auto simp: updateTransactionHeader_def Let_def)
qed

lemma posted_updateTransactionDetail:
  assumes "posted s i"
  shows "posted (snd (updateTransactionDetail now j input s)) i"
  using assms
  by (auto simp: updateTransactionDetail_def Let_def
      intro!: posted_updateHeaderTotals posted_details_update)

lemma posted_deleteTransactionDetail:
  assumes "posted s i"
  shows "posted (snd (deleteTransactionDetail now j s)) i"
  using assms
  by (auto simp: deleteTransactionDetail_def Let_def
      intro!: posted_updateHeaderTotals posted_details_update)

lemma posted_postTransaction:
  assumes "posted s i"
  shows "posted (snd (postTransaction now j s)) i"
proof -
  have "posted (s\<lparr>transactionHeadersTable :=
                        map (\<lambda>h. if h_id h = j then h\<lparr>is_posted := True, updated_at := now\<rparr>
                                  else h)
                          (transactionHeadersTable s)\<rparr>) i"
    using assms
    by (rule posted_map [where P = "\<lambda>h. h_id h = j"
          and f = "\<lambda>h. h\<lparr>is_posted := True, updated_at := now\<rparr>"]) simp_all
  with assms show ?thesis
    by (auto simp: postTransaction_def Let_def)
qed

lemma posted_deleteTransaction:
  assumes "posted s i" and "primary_keys s"
  shows "posted (snd (deleteTransaction j s)) i"
proof (cases "j = i")
  case True
  from assms(1) obtain h where h: "h \<in> set (transactionHeadersTable s)" "h_id h = i" "is_posted h"
    by (auto simp: posted_def)
  with assms(2) have "filter (\<lambda>y. h_id y = i) (transactionHeadersTable s) = [h]"
    using header_lookup [of s h] by simp
  with h True have "deleteTransaction j s = (Inl CannotDeletePosted, s)"
    by (simp add: deleteTransaction_def)
  with assms(1) show ?thesis by simp
next
  case False
  from assms(1) obtain h where h: "h \<in> set (transactionHeadersTable s)" "h_id h = i" "is_posted h"
    by (auto simp: posted_def)
  with False have "posted (s\<lparr>transactionDetailsTable :=
                   filter (\<lambda>d. header_id d \<noteq> j) (transactionDetailsTable s),
                 transactionHeadersTable :=
                   filter (\<lambda>h. h_id h \<noteq> j) (transactionHeadersTable s)\<rparr>) i"
    by (auto simp: posted_def)
  with assms(1) show ?thesis
    by (auto simp: deleteTransaction_def Let_def)
qed

lemma posted_run:
  "primary_keys s \<Longrightarrow> posted s i \<Longrightarrow> (\<forall>j. op \<noteq> UnpostTransaction j) \<Longrightarrow>
   posted (run now op s) i"
  by (cases op)
     (simp_all add: posted_createTransactionHeader posted_createCompleteTransaction
        posted_addTransactionDetail posted_updateTransactionHeader
        posted_updateTransactionDetail posted_deleteTransactionDetail
        posted_deleteTransaction posted_postTransaction)

subsection \<open>Well-formedness is kept by every operation\<close>

lemma map_update_keeps:
  "(\<And>x. g (f x) = g x) \<Longrightarrow> map g (map (\<lambda>x. if P x then f x else x) xs) = map g xs"
  by (induction xs) simp_all

lemma detail_rows_member:
  "d \<in> set (detail_rows now hid i vals) \<Longrightarrow>
   i \<le> d_id d \<and> d_id d < i + int (length vals) \<and> header_id d = hid"
proof (induction vals arbitrary: i)
  case Nil
  then show ?case by simp
next
  case (Cons v vals)
  show ?case
  proof (cases "d = detail_row now hid i v")
    case True
    then show ?thesis by (simp add: detail_row_def)
  next
    case False
    with Cons.prems have "d \<in> set (detail_rows now hid (i + 1) vals)" by simp
    from Cons.IH [OF this] show ?thesis by simp
  qed
qed

lemma distinct_detail_rows: "distinct (map d_id (detail_rows now hid i vals))"
proof (induction vals arbitrary: i)
  case Nil
  then show ?case by simp
next
  case (Cons v vals)
  have "\<forall>d \<in> set (detail_rows now hid (i + 1) vals). i + 1 \<le> d_id d"
    using detail_rows_member by blast
  then have "d_id (detail_row now hid i v) \<notin> d_id ` set (detail_rows now hid (i + 1) vals)"
    by (force simp: detail_row_def)
  with Cons show ?case by simp
qed

lemma well_formed_alt:
  "well_formed s \<longleftrightarrow>
     distinct (map h_id (transactionHeadersTable s)) \<and>
     distinct (map d_id (transactionDetailsTable s)) \<and>
     (\<forall>i \<in> set (map h_id (transactionHeadersTable s)). i < next_header_id s) \<and>
     (\<forall>i \<in> set (map d_id (transactionDetailsTable s)). i < next_detail_id s) \<and>
     (\<forall>i \<in> set (map header_id (transactionDetailsTable s)). i < next_header_id s)"
  by (auto simp: well_formed_def primary_keys_def serials_fresh_def)

lemma well_formed_same_keys:
  assumes "well_formed s"
    and "map h_id (transactionHeadersTable s') = map h_id (transactionHeadersTable s)"
    and "map d_id (transactionDetailsTable s') = map d_id (transactionDetailsTable s)"
    and "map header_id (transactionDetailsTable s') = map header_id (transactionDetailsTable s)"
    and "next_header_id s' = next_header_id s" and "next_detail_id s' = next_detail_id s"
  shows "well_formed s'"
  using assms unfolding well_formed_alt by simp

lemma well_formed_insert_header:
  assumes "well_formed s"
  shows "well_formed (snd (insert_header now nomor tgl tp desk td tk rel usr s))"
  using assms
  by (auto simp: well_formed_def primary_keys_def serials_fresh_def insert_header_def Let_def)

lemma insert_header_id:
  "insert_header now nomor tgl tp desk td tk rel usr s = (Inr h, s1) \<Longrightarrow>
   h_id h = next_header_id s \<and> next_header_id s1 = next_header_id s + 1"
  by (auto simp: insert_header_def Let_def split: if_splits)

lemma well_formed_insert_details:
  assumes "well_formed s" and "hid < next_header_id s"
  shows "well_formed (snd (insert_details now hid vals s))"
proof (cases "vals = []")
  case True
  with assms show ?thesis by (simp add: insert_details_def)
next
  case False
  let ?rows = "detail_rows now hid (next_detail_id s) vals"
  have new: "\<forall>d \<in> set ?rows. next_detail_id s \<le> d_id d \<and>
      d_id d < next_detail_id s + int (length vals) \<and> header_id d = hid"
    using detail_rows_member by blast
  from assms have old: "\<forall>d \<in> set (transactionDetailsTable s). d_id d < next_detail_id s"
    by (simp add: well_formed_def serials_fresh_def)
  have disj: "d_id ` set (transactionDetailsTable s) \<inter> d_id ` set ?rows = {}"
    using new old by fastforce
  have "distinct (map d_id (transactionDetailsTable s @ ?rows))"
    using assms disj distinct_detail_rows [of now hid "next_detail_id s" vals]
    by (simp add: well_formed_def primary_keys_def)
  moreover have "\<forall>d \<in> set (transactionDetailsTable s @ ?rows).
      d_id d < next_detail_id s + int (length vals) \<and> header_id d < next_header_id s"
    using new old assms by (fastforce simp: well_formed_def serials_fresh_def)
  ultimately show ?thesis
    using False assms
    by (simp add: insert_details_def Let_def well_formed_def primary_keys_def serials_fresh_def)
qed

lemma well_formed_updateHeaderTotals:
  assumes "well_formed s"
  shows "well_formed (updateHeaderTotals now j s)"
  using assms
  by (rule well_formed_same_keys) (simp_all add: updateHeaderTotals_def Let_def map_update_keeps)

lemma well_formed_filter:
  assumes "well_formed s"
  shows "well_formed (s\<lparr>transactionDetailsTable := filter P (transactionDetailsTable s),
                        transactionHeadersTable := filter Q (transactionHeadersTable s)\<rparr>)"
  using assms unfolding well_formed_alt by (auto simp: distinct_map_filter)

lemma well_formed_filter_details:
  assumes "well_formed s"
  shows "well_formed (s\<lparr>transactionDetailsTable := filter P (transactionDetailsTable s)\<rparr>)"
  using assms unfolding well_formed_alt by (auto simp: distinct_map_filter)

lemma well_formed_createTransactionHeader:
  assumes "well_formed s"
  shows "well_formed (snd (createTransactionHeader now input s))"
proof -
  let ?ins = "insert_header now (in_nomor_transaksi input) (in_tanggal input) (in_tipe input)
                   (in_deskripsi input) 0 0 (in_relation_id input) (in_user_id input) s"
  obtain r1 s1 where i1: "?ins = (r1, s1)" by (cases ?ins)
  from assms have "well_formed (snd ?ins)" by (rule well_formed_insert_header)
  with i1 have "well_formed s1" by simp
  with assms i1 show ?thesis
    by (cases r1) (simp_all add: createTransactionHeader_def)
qed

lemma well_formed_createCompleteTransaction:
  assumes "well_formed s"
  shows "well_formed (snd (createCompleteTransaction now input s))"
proof (cases "find (\<lambda>detail. \<not> account_exists s (in_account_id detail)) (in_details input)")
  case (Some detail)
  with assms show ?thesis
    by (simp add: createCompleteTransaction_def Let_def)
next
  case None
  let ?ins = "insert_header now
                          (in_nomor_transaksi (in_header input)) (in_tanggal (in_header input))
                          (in_tipe (in_header input)) (in_deskripsi (in_header input))
                          (to_numeric (foldl (\<lambda>sum detail. sum + in_debit detail) 0 (in_details input)))
                          (to_numeric (foldl (\<lambda>sum detail. sum + in_kredit detail) 0 (in_details input)))
                          (in_relation_id (in_header input)) (in_user_id (in_header input)) s"
  obtain r1 s1 where i1: "?ins = (r1, s1)" by (cases ?ins)
  from assms have "well_formed (snd ?ins)" by (rule well_formed_insert_header)
  with i1 have p1: "well_formed s1" by simp
  show ?thesis
  proof (cases r1)
    case (Inl e)
    with assms i1 p1 None show ?thesis
      by (simp add: createCompleteTransaction_def Let_def)
  next
    case (Inr h)
    obtain r2 s2 where i2: "insert_details now (h_id h) (in_details input) s1 = (r2, s2)"
      by (cases "insert_details now (h_id h) (in_details input) s1")
    from i1 Inr have "h_id h < next_header_id s1"
      using insert_header_id by fastforce
    with p1 have "well_formed (snd (insert_details now (h_id h) (in_details input) s1))"
      by (rule well_formed_insert_details)
    with i2 have p2: "well_formed s2" by simp
    from assms i1 i2 Inr p2 None show ?thesis
      by (cases r2) (simp_all add: createCompleteTransaction_def Let_def)
  qed
qed

lemma well_formed_addTransactionDetail:
  assumes "well_formed s"
  shows "well_formed (snd (addTransactionDetail now input s))"
proof (cases "filter (\<lambda>h. h_id h = in_header_id input) (transactionHeadersTable s) = []")
  case True
  with assms show ?thesis by (simp add: addTransactionDetail_def)
next
  case False
  then obtain h where "h \<in> set (transactionHeadersTable s)" "h_id h = in_header_id input"
    by (auto simp: filter_empty_conv)
  with assms have lt: "in_header_id input < next_header_id s"
    by (auto simp: well_formed_def serials_fresh_def)
  obtain r1 s1 where i1: "insert_details now (in_header_id input) [input] s = (r1, s1)"
    by (cases "insert_details now (in_header_id input) [input] s")
  from assms lt have "well_formed (snd (insert_details now (in_header_id input) [input] s))"
    by (rule well_formed_insert_details)
  with i1 have p1: "well_formed s1" by simp
  then have p2: "well_formed (updateHeaderTotals now (in_header_id input) s1)"
    by (rule well_formed_updateHeaderTotals)
  from assms i1 p1 p2 show ?thesis
    by (cases r1) (simp_all add: addTransactionDetail_def Let_def)
qed

lemma well_formed_updateTransactionHeader:
  assumes "well_formed s"
  shows "well_formed (snd (updateTransactionHeader now j input s))"
proof -
  have "well_formed (s\<lparr>transactionHeadersTable :=
                   map (\<lambda>h. if h_id h = j then set_header now input h else h)
                     (transactionHeadersTable s)\<rparr>)"
    using assms
    by (rule well_formed_same_keys) (simp_all add: map_update_keeps set_header_def)
  with assms show ?thesis
    by (simp add: updateTransactionHeader_def Let_def)
qed

lemma well_formed_updateTransactionDetail:
  assumes "well_formed s"
  shows "well_formed (snd (updateTransactionDetail now j input s))"
proof -
  have "well_formed (s\<lparr>transactionDetailsTable :=
                           map (\<lambda>d. if d_id d = j then set_detail input d else d)
                             (transactionDetailsTable s)\<rparr>)"
    using assms
    by (rule well_formed_same_keys) (simp_all add: map_update_keeps set_detail_def)
  then have "well_formed (updateHeaderTotals now k (s\<lparr>transactionDetailsTable :=
                           map (\<lambda>d. if d_id d = j then set_detail input d else d)
                             (transactionDetailsTable s)\<rparr>))" for k
    by (rule well_formed_updateHeaderTotals)
  with assms show ?thesis
    by (simp add: updateTransactionDetail_def Let_def)
qed

lemma well_formed_deleteTransactionDetail:
  assumes "well_formed s"
  shows "well_formed (snd (deleteTransactionDetail now j s))"
proof -
  have "well_formed (s\<lparr>transactionDetailsTable :=
                           filter (\<lambda>d. d_id d \<noteq> j) (transactionDetailsTable s)\<rparr>)"
    using assms by (rule well_formed_filter_details)
  then have "well_formed (updateHeaderTotals now k (s\<lparr>transactionDetailsTable :=
                           filter (\<lambda>d. d_id d \<noteq> j) (transactionDetailsTable s)\<rparr>))" for k
    by (rule well_formed_updateHeaderTotals)
  with assms show ?thesis
    by (simp add: deleteTransactionDetail_def Let_def)
qed

lemma well_formed_deleteTransaction:
  assumes "well_formed s"
  shows "well_formed (snd (deleteTransaction j s))"
  using assms well_formed_filter [OF assms, where P = "\<lambda>d. header_id d \<noteq> j"
      and Q = "\<lambda>h. h_id h \<noteq> j"]
  by (simp add: deleteTransaction_def Let_def)

lemma well_formed_postTransaction:
  assumes "well_formed s"
  shows "well_formed (snd (postTransaction now j s))"
proof -
  have "well_formed (s\<lparr>transactionHeadersTable :=
                        map (\<lambda>h. if h_id h = j then h\<lparr>is_posted := True, updated_at := now\<rparr>
                                  else h)
                          (transactionHeadersTable s)\<rparr>)"
    using assms
    by (rule well_formed_same_keys) (simp_all add: map_update_keeps)
  with assms show ?thesis
    by (simp add: postTransaction_def Let_def)
qed

lemma well_formed_unpostTransaction:
  assumes "well_formed s"
  shows "well_formed (snd (unpostTransaction now j s))"
proof -
  have "well_formed (s\<lparr>transactionHeadersTable :=
                        map (\<lambda>h. if h_id h = j then h\<lparr>is_posted := False, updated_at := now\<rparr>
                                  else h)
                          (transactionHeadersTable s)\<rparr>)"
    using assms
    by (rule well_formed_same_keys) (simp_all add: map_update_keeps)
  with assms show ?thesis
    by (simp add: unpostTransaction_def Let_def)
qed

lemma well_formed_run: "well_formed s \<Longrightarrow> well_formed (run now op s)"
  by (cases op)
     (simp_all add: well_formed_createTransactionHeader well_formed_createCompleteTransaction
        well_formed_addTransactionDetail well_formed_updateTransactionHeader
        well_formed_updateTransactionDetail well_formed_deleteTransactionDetail
        well_formed_deleteTransaction well_formed_postTransaction
        well_formed_unpostTransaction)

subsection \<open>Posting is undone by unposting only\<close>

lemma posted_run_all:
  "well_formed s \<Longrightarrow> posted s i \<Longrightarrow>
   \<forall>call \<in> set calls. \<forall>j. snd call \<noteq> UnpostTransaction j \<Longrightarrow>
   posted (run_all calls s) i"
proof (induction calls arbitrary: s)
  case Nil
  then show ?case by simp
next
  case (Cons call calls)
  from Cons.prems have "posted (run (fst call) (snd call) s) i"
    by (simp add: posted_run well_formed_def)
  moreover from Cons.prems have "well_formed (run (fst call) (snd call) s)"
    by (simp add: well_formed_run)
  ultimately show ?case using Cons by simp
qed

text \<open>
  Claim C5, as amended. A posted header stops being posted only through
  \<^verbatim>\<open>unpostTransaction\<close>: along every sequence of exported operations without a call of
  \<^verbatim>\<open>unpostTransaction\<close>, whatever the arguments and whether the calls return or throw, a
  header that was posted is still stored and still posted.
\<close>

theorem posted_until_unposted:
  "well_formed s \<and> posted s i \<and>
   (\<forall>call \<in> set calls. \<forall>j. snd call \<noteq> UnpostTransaction j) \<longrightarrow>
   posted (run_all calls s) i"
  using posted_run_all [of s i calls] by blast

theorem posted_until_unposted_witness:
  "well_formed test_db_posted \<and> posted test_db_posted 1 \<and>
   posted (run_all [(test_later, DeleteTransaction 1),
                    (test_later, UpdateTransactionHeader 1 test_header_update),
                    (test_later, PostTransaction 1)] test_db_posted) 1"
proof -
  have k: "well_formed test_db_posted"
    by (simp add: well_formed_def primary_keys_def serials_fresh_def test_db_posted_def
        test_db_created_def test_db_def test_details_def test_header_def)
  have p: "posted test_db_posted 1"
    by (simp add: posted_def test_db_posted_def test_header_def)
  from posted_until_unposted [of test_db_posted 1
      "[(test_later, DeleteTransaction 1),
        (test_later, UpdateTransactionHeader 1 test_header_update),
        (test_later, PostTransaction 1)]"] k p
  show ?thesis by simp
qed

lemma postTransaction_test:
  "postTransaction test_later 1 test_db_created =
     (Inr (parse_header (test_header\<lparr>is_posted := True, updated_at := test_later\<rparr>)),
      test_db_posted)"
  by (simp add: postTransaction_def validateTransactionBalance_def test_db_created_def
       test_db_posted_def test_details_def test_header_def test_db_def parseFloat_def Let_def)

text \<open>
  Claim C5 as stated fails: the transaction of the tests is created and posted, and
  \<^verbatim>\<open>unpostTransaction\<close> then makes it unposted again.
\<close>

theorem unpostTransaction_counterexample:
  "map is_posted (transactionHeadersTable
     (run test_later (PostTransaction 1)
       (run test_now (CreateCompleteTransaction test_input) test_db))) = [True] \<and>
   map is_posted (transactionHeadersTable
     (run test_later (UnpostTransaction 1)
       (run test_later (PostTransaction 1)
         (run test_now (CreateCompleteTransaction test_input) test_db)))) = [False]"
proof -
  have 1: "run test_now (CreateCompleteTransaction test_input) test_db = test_db_created"
    by (simp add: createCompleteTransaction_test)
  have 2: "run test_later (PostTransaction 1) test_db_created = test_db_posted"
    by (simp add: postTransaction_test)
  have 3: "map is_posted (transactionHeadersTable test_db_posted) = [True]"
    by (simp add: test_db_posted_def)
  have 4: "map is_posted (transactionHeadersTable
             (run test_later (UnpostTransaction 1) test_db_posted)) = [False]"
    by (simp add: unpostTransaction_def test_db_posted_def test_db_created_def
        test_header_def Let_def)
  show ?thesis by (simp only: 1 2 3 4)
qed

subsection \<open>Headers and their detail lines\<close>

lemma createCompleteTransaction_returns:
  assumes "createCompleteTransaction now input s = (Inr (h, ds), s')"
  shows "in_details input \<noteq> [] \<and>
         h = parse_header (created_header now input s) \<and>
         ds = map parse_detail
                (detail_rows now (next_header_id s) (next_detail_id s) (in_details input)) \<and>
         transactionDetailsTable s' = transactionDetailsTable s
           @ detail_rows now (next_header_id s) (next_detail_id s) (in_details input) \<and>
         transactionHeadersTable s' = transactionHeadersTable s @ [created_header now input s]"
proof (cases "find (\<lambda>detail. \<not> account_exists s (in_account_id detail)) (in_details input)")
  case (Some detail)
  with assms show ?thesis
    by (simp add: createCompleteTransaction_def Let_def split: if_splits)
next
  case None
  let ?ins = "insert_header now
                          (in_nomor_transaksi (in_header input)) (in_tanggal (in_header input))
                          (in_tipe (in_header input)) (in_deskripsi (in_header input))
                          (to_numeric (foldl (\<lambda>sum detail. sum + in_debit detail) 0 (in_details input)))
                          (to_numeric (foldl (\<lambda>sum detail. sum + in_kredit detail) 0 (in_details input)))
                          (in_relation_id (in_header input)) (in_user_id (in_header input)) s"
  obtain r1 s1 where i1: "?ins = (r1, s1)" by (cases ?ins)
  show ?thesis
  proof (cases r1)
    case (Inl e)
    with assms i1 None show ?thesis
      by (simp add: createCompleteTransaction_def Let_def split: if_splits)
  next
    case (Inr row)
    with i1 have row: "row = created_header now input s"
      and s1: "s1 = s\<lparr>next_header_id := next_header_id s + 1,
                   transactionHeadersTable := transactionHeadersTable s @ [row]\<rparr>"
      by (auto simp: insert_header_def created_header_def Let_def foldl_plus_sum_list
          split: if_splits)
    obtain r2 s2 where i2: "insert_details now (h_id row) (in_details input) s1 = (r2, s2)"
      by (cases "insert_details now (h_id row) (in_details input) s1")
    show ?thesis
    proof (cases r2)
      case (Inl e)
      with assms i1 i2 Inr None show ?thesis
        by (simp add: createCompleteTransaction_def Let_def split: if_splits)
    next
      case r2: (Inr rows)
      from assms i1 i2 Inr r2 None have res: "h = parse_header row" "ds = map parse_detail rows"
        "s' = s2"
        by (simp_all add: createCompleteTransaction_def Let_def split: if_splits)
      from i2 r2 have ne: "in_details input \<noteq> []"
        and rows: "rows = detail_rows now (h_id row) (next_detail_id s1) (in_details input)"
        and s2: "transactionDetailsTable s2 = transactionDetailsTable s1 @ rows"
           "transactionHeadersTable s2 = transactionHeadersTable s1"
        by (auto simp: insert_details_def Let_def split: if_splits)
      from row have "h_id row = next_header_id s" by (simp add: created_header_def)
      with res ne rows s2 s1 row show ?thesis by simp
    qed
  qed
qed

lemma createCompleteTransaction_no_lines:
  assumes "in_details input = []"
  shows "\<exists>e. fst (createCompleteTransaction now input s) = Inl e"
proof -
  let ?r = "createCompleteTransaction now input s"
  show ?thesis
  proof (cases "fst ?r")
    case (Inl e)
    then show ?thesis by blast
  next
    case (Inr res)
    then have "?r = (Inr (fst res, snd res), snd ?r)" by (metis prod.collapse)
    from createCompleteTransaction_returns [OF this] assms show ?thesis by simp
  qed
qed

lemma details_of_fresh_header:
  assumes "well_formed s"
  shows "filter (\<lambda>d. header_id d = next_header_id s) (transactionDetailsTable s) = []"
  using assms by (auto simp: well_formed_def serials_fresh_def filter_empty_conv)

lemma filter_detail_rows:
  "filter (\<lambda>d. header_id d = hid) (detail_rows now hid i vals) = detail_rows now hid i vals"
  by (induction vals arbitrary: i) (simp_all add: detail_row_def)

lemma createTransactionHeader_returns:
  assumes "createTransactionHeader now input s = (Inr h, s')"
  shows "h_id h = next_header_id s \<and>
         transactionDetailsTable s' = transactionDetailsTable s \<and>
         (\<exists>row \<in> set (transactionHeadersTable s'). h_id row = h_id h)"
proof -
  let ?ins = "insert_header now (in_nomor_transaksi input) (in_tanggal input) (in_tipe input)
                   (in_deskripsi input) 0 0 (in_relation_id input) (in_user_id input) s"
  obtain r1 s1 where i1: "?ins = (r1, s1)" by (cases ?ins)
  show ?thesis
  proof (cases r1)
    case (Inl e)
    with assms i1 show ?thesis
      by (simp add: createTransactionHeader_def split: if_splits)
  next
    case (Inr row)
    with assms i1 have "h = parse_header row" "s' = s1"
      by (simp_all add: createTransactionHeader_def split: if_splits)
    moreover from i1 Inr have "h_id row = next_header_id s"
      "transactionDetailsTable s1 = transactionDetailsTable s"
      "row \<in> set (transactionHeadersTable s1)"
      by (auto simp: insert_header_def Let_def split: if_splits)
    ultimately show ?thesis by (auto simp: parse_header_def)
  qed
qed

text \<open>
  Claim C7, as amended. \<^verbatim>\<open>createCompleteTransaction\<close> rejects an input whose details
  list is empty (the call throws), and a transaction that it returns has one stored detail
  row per input line, at least one. A header without detail rows is possible all the same:
  \<^verbatim>\<open>createTransactionHeader\<close> stores the header alone, with no detail row.
\<close>

theorem detail_lines_of_created_transactions:
  "(in_details input = [] \<longrightarrow> (\<exists>e. fst (createCompleteTransaction now input s) = Inl e)) \<and>
   (well_formed s \<and> createCompleteTransaction now input s = (Inr (h, ds), s') \<longrightarrow>
      ds \<noteq> [] \<and> length ds = length (in_details input) \<and>
      map parse_detail (details_of s' (h_id h)) = ds) \<and>
   (well_formed s \<and> createTransactionHeader now hinput s = (Inr h0, s0) \<longrightarrow>
      (\<exists>row \<in> set (transactionHeadersTable s0). h_id row = h_id h0) \<and>
      details_of s0 (h_id h0) = [])"
proof (intro conjI impI)
  assume "in_details input = []"
  then show "\<exists>e. fst (createCompleteTransaction now input s) = Inl e"
    by (rule createCompleteTransaction_no_lines)
next
  assume a: "well_formed s \<and> createCompleteTransaction now input s = (Inr (h, ds), s')"
  then have wf: "well_formed s" and r: "createCompleteTransaction now input s = (Inr (h, ds), s')"
    by simp_all
  note f = createCompleteTransaction_returns [OF r]
  from f show len: "length ds = length (in_details input)" by (simp add: length_detail_rows)
  from f have "in_details input \<noteq> []" by simp
  with len show "ds \<noteq> []" by auto
  from f have "h_id h = next_header_id s" by (simp add: parse_header_def created_header_def)
  with f wf show "map parse_detail (details_of s' (h_id h)) = ds"
    by (simp add: details_of_def details_of_fresh_header filter_detail_rows)
next
  assume a: "well_formed s \<and> createTransactionHeader now hinput s = (Inr h0, s0)"
  then have wf: "well_formed s" and r: "createTransactionHeader now hinput s = (Inr h0, s0)"
    by simp_all
  note f = createTransactionHeader_returns [OF r]
  from f show "\<exists>row \<in> set (transactionHeadersTable s0). h_id row = h_id h0" by blast
  from f wf show "details_of s0 (h_id h0) = []"
    by (simp add: details_of_def details_of_fresh_header)
qed

lemma well_formed_test_db: "well_formed test_db"
  by (simp add: well_formed_def primary_keys_def serials_fresh_def test_db_def)

lemma createTransactionHeader_test:
  "createTransactionHeader test_now test_header_only_input test_db =
     (Inr (parse_header test_header_only), test_db_header_only)"
  by (simp add: createTransactionHeader_def test_header_only_input_def test_db_def
      test_header_only_def test_db_header_only_def insert_header_def user_exists_def
      relation_exists_def Let_def)

theorem detail_lines_of_created_transactions_witness:
  "(\<exists>e. fst (createCompleteTransaction test_now test_input_no_lines test_db) = Inl e) \<and>
   map parse_detail test_details \<noteq> [] \<and>
   length (map parse_detail test_details) = length (in_details test_input) \<and>
   map parse_detail (details_of test_db_created (h_id (parse_header test_header)))
     = map parse_detail test_details \<and>
   (\<exists>row \<in> set (transactionHeadersTable test_db_header_only).
      h_id row = h_id (parse_header test_header_only)) \<and>
   details_of test_db_header_only (h_id (parse_header test_header_only)) = []"
  using detail_lines_of_created_transactions [where input = test_input_no_lines
      and now = test_now and s = test_db]
    detail_lines_of_created_transactions [where input = test_input and s = test_db
      and now = test_now and h = "parse_header test_header"
      and ds = "map parse_detail test_details" and s' = test_db_created
      and hinput = test_header_only_input and ?h0.0 = "parse_header test_header_only"
      and ?s0.0 = test_db_header_only]
    well_formed_test_db createCompleteTransaction_test createTransactionHeader_test
  by (simp add: test_input_no_lines_def)

text \<open>
  Claim C7 as stated fails: after \<^verbatim>\<open>createTransactionHeader\<close> on the test data the
  stored header has zero detail rows.
\<close>

theorem header_without_details_counterexample:
  "createTransactionHeader test_now test_header_only_input test_db =
     (Inr (parse_header test_header_only), test_db_header_only) \<and>
   transactionHeadersTable test_db_header_only = [test_header_only] \<and>
   details_of test_db_header_only (h_id test_header_only) = []"
  by (simp add: createTransactionHeader_test)
     (simp add: test_db_header_only_def test_db_def details_of_def)

subsection \<open>Transaction numbers\<close>








lemma digit_value_digit_char: "d < 10 \<Longrightarrow> digit_value (digit_char d) = d"
proof -
  assume "d < 10"
  then have "d \<in> {0, 1, 2, 3, 4, 5, 6, 7, 8, 9}" by auto
  then show ?thesis by (auto simp: digit_value_def digit_char_def)
qed

lemma isDigit_digit_char: "d < 10 \<Longrightarrow> isDigit (digit_char d)"
proof -
  assume "d < 10"
  then have "d \<in> {0, 1, 2, 3, 4, 5, 6, 7, 8, 9}" by auto
  then show ?thesis by (auto simp: isDigit_def digit_char_def)
qed

lemma parseInt_snoc: "parseInt (ds @ [c]) = 10 * parseInt ds + digit_value c"
  by (simp add: parseInt_def)

text \<open>The decimal string of a number consists of digits and reads back as the number.\<close>

lemma parseInt_toString_nat: "parseInt (toString_nat n) = n"
proof (induction n rule: toString_nat.induct)
  case (1 n)
  show ?case
  proof (cases "n < 10")
    case True
    then show ?thesis
      by (simp add: toString_nat.simps [of n] parseInt_def digit_value_digit_char)
  next
    case False
    with 1 have "parseInt (toString_nat (n div 10)) = n div 10" by simp
    with False show ?thesis
      by (simp add: toString_nat.simps [of n] parseInt_snoc digit_value_digit_char)
  qed
qed

lemma isDigit_toString_nat: "c \<in> set (toString_nat n) \<Longrightarrow> isDigit c"
proof (induction n rule: toString_nat.induct)
  case (1 n)
  show ?case
  proof (cases "n < 10")
    case True
    with 1 show ?thesis
      by (simp add: toString_nat.simps [of n] isDigit_digit_char)
  next
    case False
    with 1 show ?thesis
      by (auto simp add: toString_nat.simps [of n] isDigit_digit_char)
  qed
qed






lemma generateTransactionNumber_january:
  "generateTransactionNumber test_db_numbered JURNAL_UMUM
     \<lparr>getFullYear = 2024, getMonth = 0, within_month = 14\<rparr> = ''JURNAL_UMUM-202401-001''"
  by code_simp




subsection \<open>Income statement\<close>

text \<open>
  Claim C9 fails on the code. After the test transaction is stored, the active revenue
  account 4001 (\<^verbatim>\<open>PENDAPATAN\<close>) has a detail line of 500000 kredit dated inside the
  period, and \<^verbatim>\<open>getIncomeStatementReport\<close> returns no row at all.
\<close>

theorem getIncomeStatementReport_placeholder:
  "getIncomeStatementReport test_filter test_db_created = [] \<and>
   map (\<lambda>a. (a_id a, a_tipe a, a_is_active a)) (accountsTable test_db_created)
     = [(1, ASET, True), (2, PENDAPATAN, True)] \<and>
   map (\<lambda>d. (header_id d, account_id d, kredit d)) (transactionDetailsTable test_db_created)
     = [(1, 1, 0), (1, 2, 50000000)] \<and>
   map h_id (transactionHeadersTable test_db_created) = [1] \<and>
   map (\<lambda>h. lte (dari_tanggal test_filter) (tanggal h) \<and>
              lte (tanggal h) (sampai_tanggal test_filter))
     (transactionHeadersTable test_db_created) = [True]"
  by (simp add: getIncomeStatementReport_def test_db_created_def test_db_def test_details_def
      test_header_def test_filter_def test_date_def lte_def)

subsection \<open>Financial position report\<close>















text \<open>The model returns the rows that the report tests expect.\<close>

lemma report_test:
  "map (\<lambda>r. (account_kode r, account_tipe r, saldo_awal r, b_debit r, b_kredit r, saldo_akhir r))
     (getFinancialPositionReport compare_strings report_filter report_db) =
   [(''1100'', ASET, 10000, 500, 0, 10500),
    (''1200'', ASET, 5000, 0, 300, 4700),
    (''2100'', KEWAJIBAN, 3000, 0, 200, 3200),
    (''3100'', EKUITAS, 12000, 0, 0, 12000)]"
  by code_simp










subsection \<open>Header totals and detail rows\<close>

lemma to_numeric_sum_parseFloat:
  "to_numeric (foldl (\<lambda>sum detail. sum + parseFloat (f detail)) 0 xs) = sum_list (map f xs)"
  by (simp add: foldl_plus_sum_list sum_list_parseFloat to_numeric_parseFloat)

lemma totals_match_updateHeaderTotals:
  assumes "\<forall>h \<in> set (transactionHeadersTable s). h_id h \<noteq> j \<longrightarrow>
        total_debit h = sum_list (map debit (details_of s (h_id h))) \<and>
        total_kredit h = sum_list (map kredit (details_of s (h_id h)))"
  shows "totals_match (updateHeaderTotals now j s)"
proof -
  have d: "details_of (updateHeaderTotals now j s) k = details_of s k" for k
    by (simp add: details_of_def updateHeaderTotals_def Let_def)
  show ?thesis
    unfolding totals_match_def d
    using assms
    by (auto simp: updateHeaderTotals_def Let_def to_numeric_sum_parseFloat details_of_def)
qed

lemma totals_of_other_headers:
  assumes "totals_match s"
    and "transactionHeadersTable s1 = transactionHeadersTable s"
    and "\<And>k. k \<noteq> j \<Longrightarrow> details_of s1 k = details_of s k"
  shows "\<forall>h \<in> set (transactionHeadersTable s1). h_id h \<noteq> j \<longrightarrow>
        total_debit h = sum_list (map debit (details_of s1 (h_id h))) \<and>
        total_kredit h = sum_list (map kredit (details_of s1 (h_id h)))"
  using assms by (simp add: totals_match_def)

lemma totals_match_same_rows:
  assumes "totals_match s"
    and "map (\<lambda>h. (h_id h, total_debit h, total_kredit h)) (transactionHeadersTable s1)
         = map (\<lambda>h. (h_id h, total_debit h, total_kredit h)) (transactionHeadersTable s)"
    and "transactionDetailsTable s1 = transactionDetailsTable s"
  shows "totals_match s1"
  unfolding totals_match_def
proof
  fix h1 assume "h1 \<in> set (transactionHeadersTable s1)"
  then have "(h_id h1, total_debit h1, total_kredit h1)
      \<in> set (map (\<lambda>h. (h_id h, total_debit h, total_kredit h)) (transactionHeadersTable s1))"
    by (simp add: rev_image_eqI)
  with assms(2) have "(h_id h1, total_debit h1, total_kredit h1)
      \<in> (\<lambda>h. (h_id h, total_debit h, total_kredit h)) ` set (transactionHeadersTable s)"
    by (simp only: set_map)
  then obtain h where h: "h \<in> set (transactionHeadersTable s)" "h_id h = h_id h1"
    "total_debit h = total_debit h1" "total_kredit h = total_kredit h1"
    by (elim imageE) simp
  have "details_of s1 (h_id h1) = details_of s (h_id h1)"
    using assms(3) by (simp add: details_of_def)
  with assms(1) h show "total_debit h1 = sum_list (map debit (details_of s1 (h_id h1))) \<and>
        total_kredit h1 = sum_list (map kredit (details_of s1 (h_id h1)))"
    by (simp add: totals_match_def)
qed

lemma join_detail_header_hd:
  assumes "join_detail_header s i \<noteq> []"
  shows "fst (hd (join_detail_header s i)) \<in> set (transactionDetailsTable s) \<and>
         d_id (fst (hd (join_detail_header s i))) = i"
proof -
  from assms have "hd (join_detail_header s i) \<in> set (join_detail_header s i)" by simp
  then show ?thesis by (auto simp: join_detail_header_def)
qed

lemma rows_with_id:
  assumes "well_formed s" and "d \<in> set (transactionDetailsTable s)" and "d_id d = i"
  shows "\<forall>d' \<in> set (transactionDetailsTable s). d_id d' = i \<longrightarrow> d' = d"
proof -
  from assms(1) have "inj_on d_id (set (transactionDetailsTable s))"
    by (simp add: well_formed_def primary_keys_def distinct_map)
  with assms(2,3) show ?thesis by (auto dest: inj_onD)
qed

lemma details_of_after_update:
  assumes "\<forall>d' \<in> set ds. d_id d' = i \<longrightarrow> header_id d' = j" and "k \<noteq> j"
    and "\<And>d'. header_id (f d') = header_id d'"
  shows "filter (\<lambda>d. header_id d = k) (map (\<lambda>d. if d_id d = i then f d else d) ds)
         = filter (\<lambda>d. header_id d = k) ds"
  using assms(1)
proof (induction ds)
  case Nil
  then show ?case by simp
next
  case (Cons d ds)
  with assms(2,3) show ?case by auto
qed

lemma details_of_after_delete:
  assumes "\<forall>d' \<in> set ds. d_id d' = i \<longrightarrow> header_id d' = j" and "k \<noteq> j"
  shows "filter (\<lambda>d. header_id d = k) (filter (\<lambda>d. d_id d \<noteq> i) ds)
         = filter (\<lambda>d. header_id d = k) ds"
  using assms by (induction ds) auto

lemma totals_match_updateTransactionHeader:
  assumes "totals_match s"
  shows "totals_match (snd (updateTransactionHeader now j input s))"
proof -
  have "totals_match (s\<lparr>transactionHeadersTable :=
                   map (\<lambda>h. if h_id h = j then set_header now input h else h)
                     (transactionHeadersTable s)\<rparr>)"
    using assms
    by (rule totals_match_same_rows) (simp_all add: set_header_def comp_def if_distrib cong: if_cong)
  with assms show ?thesis
    by (simp add: updateTransactionHeader_def Let_def)
qed

lemma totals_match_postTransaction:
  assumes "totals_match s"
  shows "totals_match (snd (postTransaction now j s))"
proof -
  have "totals_match (s\<lparr>transactionHeadersTable :=
                        map (\<lambda>h. if h_id h = j then h\<lparr>is_posted := True, updated_at := now\<rparr>
                                  else h)
                          (transactionHeadersTable s)\<rparr>)"
    using assms
    by (rule totals_match_same_rows) (simp_all add: comp_def if_distrib cong: if_cong)
  with assms show ?thesis
    by (simp add: postTransaction_def Let_def)
qed

lemma totals_match_unpostTransaction:
  assumes "totals_match s"
  shows "totals_match (snd (unpostTransaction now j s))"
proof -
  have "totals_match (s\<lparr>transactionHeadersTable :=
                        map (\<lambda>h. if h_id h = j then h\<lparr>is_posted := False, updated_at := now\<rparr>
                                  else h)
                          (transactionHeadersTable s)\<rparr>)"
    using assms
    by (rule totals_match_same_rows) (simp_all add: comp_def if_distrib cong: if_cong)
  with assms show ?thesis
    by (simp add: unpostTransaction_def Let_def)
qed

lemma totals_match_updateTransactionDetail:
  assumes "totals_match s" and "well_formed s"
  shows "totals_match (snd (updateTransactionDetail now i input s))"
proof (cases "join_detail_header s i = []")
  case True
  with assms show ?thesis by (simp add: updateTransactionDetail_def)
next
  case False
  let ?d = "fst (hd (join_detail_header s i))"
  let ?s1 = "s\<lparr>transactionDetailsTable :=
                           map (\<lambda>d. if d_id d = i then set_detail input d else d)
                             (transactionDetailsTable s)\<rparr>"
  from False have d: "?d \<in> set (transactionDetailsTable s)" "d_id ?d = i"
    using join_detail_header_hd by blast+
  from rows_with_id [OF assms(2) d] have only: "\<forall>d' \<in> set (transactionDetailsTable s).
      d_id d' = i \<longrightarrow> header_id d' = header_id ?d"
    by auto
  have "details_of ?s1 k = details_of s k" if "k \<noteq> header_id ?d" for k
    using that details_of_after_update [OF only that, of "set_detail input"]
    by (simp add: details_of_def set_detail_def)
  with assms(1) have "\<forall>h \<in> set (transactionHeadersTable ?s1). h_id h \<noteq> header_id ?d \<longrightarrow>
        total_debit h = sum_list (map debit (details_of ?s1 (h_id h))) \<and>
        total_kredit h = sum_list (map kredit (details_of ?s1 (h_id h)))"
    by (intro totals_of_other_headers [where s = s]) simp_all
  then have "totals_match (updateHeaderTotals now (header_id ?d) ?s1)"
    by (rule totals_match_updateHeaderTotals)
  with assms(1) show ?thesis
    by (simp add: updateTransactionDetail_def Let_def)
qed

lemma totals_match_deleteTransactionDetail:
  assumes "totals_match s" and "well_formed s"
  shows "totals_match (snd (deleteTransactionDetail now i s))"
proof (cases "join_detail_header s i = []")
  case True
  with assms show ?thesis by (simp add: deleteTransactionDetail_def)
next
  case False
  let ?d = "fst (hd (join_detail_header s i))"
  let ?s1 = "s\<lparr>transactionDetailsTable :=
                           filter (\<lambda>d. d_id d \<noteq> i) (transactionDetailsTable s)\<rparr>"
  from False have d: "?d \<in> set (transactionDetailsTable s)" "d_id ?d = i"
    using join_detail_header_hd by blast+
  from rows_with_id [OF assms(2) d] have only: "\<forall>d' \<in> set (transactionDetailsTable s).
      d_id d' = i \<longrightarrow> header_id d' = header_id ?d"
    by auto
  have "details_of ?s1 k = details_of s k" if "k \<noteq> header_id ?d" for k
    using that details_of_after_delete [OF only that]
    by (simp add: details_of_def)
  with assms(1) have "\<forall>h \<in> set (transactionHeadersTable ?s1). h_id h \<noteq> header_id ?d \<longrightarrow>
        total_debit h = sum_list (map debit (details_of ?s1 (h_id h))) \<and>
        total_kredit h = sum_list (map kredit (details_of ?s1 (h_id h)))"
    by (intro totals_of_other_headers [where s = s]) simp_all
  then have "totals_match (updateHeaderTotals now (header_id ?d) ?s1)"
    by (rule totals_match_updateHeaderTotals)
  with assms(1) show ?thesis
    by (simp add: deleteTransactionDetail_def Let_def)
qed

lemma totals_match_deleteTransaction:
  assumes "totals_match s"
  shows "totals_match (snd (deleteTransaction j s))"
proof -
  have "filter (\<lambda>d. header_id d = k) (filter (\<lambda>d. header_id d \<noteq> j) ds)
        = filter (\<lambda>d. header_id d = k) ds" if "k \<noteq> j" for k and ds :: "numeric transaction_detail list"
    using that by (induction ds) auto
  with assms have "totals_match (s\<lparr>transactionDetailsTable :=
                   filter (\<lambda>d. header_id d \<noteq> j) (transactionDetailsTable s),
                 transactionHeadersTable :=
                   filter (\<lambda>h. h_id h \<noteq> j) (transactionHeadersTable s)\<rparr>)"
    by (simp add: totals_match_def details_of_def)
  with assms show ?thesis
    by (simp add: deleteTransaction_def Let_def)
qed

lemma totals_match_addTransactionDetail:
  assumes "totals_match s"
  shows "totals_match (snd (addTransactionDetail now input s))"
proof -
  let ?j = "in_header_id input"
  obtain r1 s1 where i1: "insert_details now ?j [input] s = (r1, s1)"
    by (cases "insert_details now ?j [input] s")
  show ?thesis
  proof (cases r1)
    case (Inl e)
    with i1 have "s1 = s" by (simp add: insert_details_def Let_def)
    with assms i1 Inl show ?thesis by (simp add: addTransactionDetail_def Let_def)
  next
    case (Inr rows)
    with i1 have s1: "transactionHeadersTable s1 = transactionHeadersTable s"
      "transactionDetailsTable s1 = transactionDetailsTable s
         @ [detail_row now ?j (next_detail_id s) input]"
      by (auto simp: insert_details_def Let_def)
    have "details_of s1 k = details_of s k" if "k \<noteq> ?j" for k
      using that s1 by (simp add: details_of_def detail_row_def)
    with assms s1 have "\<forall>h \<in> set (transactionHeadersTable s1). h_id h \<noteq> ?j \<longrightarrow>
        total_debit h = sum_list (map debit (details_of s1 (h_id h))) \<and>
        total_kredit h = sum_list (map kredit (details_of s1 (h_id h)))"
      by (intro totals_of_other_headers [where s = s]) simp_all
    then have "totals_match (updateHeaderTotals now ?j s1)"
      by (rule totals_match_updateHeaderTotals)
    with assms i1 Inr show ?thesis by (simp add: addTransactionDetail_def Let_def)
  qed
qed

lemma totals_match_appended:
  assumes "totals_match s" and "well_formed s"
    and "transactionHeadersTable s' = transactionHeadersTable s @ [row]"
    and "h_id row = next_header_id s"
    and "transactionDetailsTable s' = transactionDetailsTable s @ rows"
    and "\<forall>d \<in> set rows. header_id d = next_header_id s"
    and "total_debit row = sum_list (map debit rows)"
    and "total_kredit row = sum_list (map kredit rows)"
  shows "totals_match s'"
  unfolding totals_match_def
proof
  fix h assume "h \<in> set (transactionHeadersTable s')"
  with assms(3) consider "h \<in> set (transactionHeadersTable s)" | "h = row" by auto
  then show "total_debit h = sum_list (map debit (details_of s' (h_id h))) \<and>
        total_kredit h = sum_list (map kredit (details_of s' (h_id h)))"
  proof cases
    case 1
    with assms(2) have "h_id h \<noteq> next_header_id s"
      by (auto simp: well_formed_def serials_fresh_def)
    with assms(6) have "filter (\<lambda>d. header_id d = h_id h) rows = []"
      by (auto simp: filter_empty_conv)
    with assms(5) have "details_of s' (h_id h) = details_of s (h_id h)"
      by (simp add: details_of_def)
    with assms(1) 1 show ?thesis by (simp add: totals_match_def)
  next
    case 2
    from assms(6) have "filter (\<lambda>d. header_id d = next_header_id s) rows = rows"
      by (simp add: filter_id_conv)
    with assms(2,4,5) 2 have "details_of s' (h_id h) = rows"
      by (simp add: details_of_def details_of_fresh_header)
    with assms(7,8) 2 show ?thesis by simp
  qed
qed

lemma insert_header_Inl:
  assumes "insert_header now nomor tgl tp desk td tk rel usr s = (Inl e, s1)"
  shows "s1 = s\<lparr>next_header_id := next_header_id s + 1\<rparr>"
  using assms by (simp add: insert_header_def Let_def split: if_splits)

lemma insert_header_Inr:
  assumes "insert_header now nomor tgl tp desk td tk rel usr s = (Inr row, s1)"
  shows "s1 = s\<lparr>next_header_id := next_header_id s + 1,
                 transactionHeadersTable := transactionHeadersTable s @ [row]\<rparr>"
    and "h_id row = next_header_id s" and "total_debit row = td" and "total_kredit row = tk"
  using assms by (auto simp add: insert_header_def Let_def split: if_splits)

lemma insert_details_tables:
  assumes "insert_details now hid vals s = (r, s1)"
  shows "transactionHeadersTable s1 = transactionHeadersTable s"
    and "transactionDetailsTable s1
         = transactionDetailsTable s @ detail_rows now hid (next_detail_id s) vals"
  using assms by (auto simp add: insert_details_def Let_def split: if_splits)

lemma totals_match_same_tables:
  assumes "totals_match s"
    and "transactionHeadersTable s1 = transactionHeadersTable s"
    and "transactionDetailsTable s1 = transactionDetailsTable s"
  shows "totals_match s1"
  using assms by (simp add: totals_match_def details_of_def)

lemma totals_match_createTransactionHeader:
  assumes "totals_match s" and "well_formed s"
  shows "totals_match (snd (createTransactionHeader now input s))"
proof -
  let ?ins = "insert_header now (in_nomor_transaksi input) (in_tanggal input) (in_tipe input)
                   (in_deskripsi input) 0 0 (in_relation_id input) (in_user_id input) s"
  obtain r1 s1 where i1: "?ins = (r1, s1)" by (cases ?ins)
  show ?thesis
  proof (cases r1)
    case (Inl e)
    with i1 have "s1 = s\<lparr>next_header_id := next_header_id s + 1\<rparr>"
      using insert_header_Inl by blast
    then have "transactionHeadersTable s1 = transactionHeadersTable s"
      "transactionDetailsTable s1 = transactionDetailsTable s"
      by simp_all
    with assms(1) have "totals_match s1" by (rule totals_match_same_tables)
    with assms i1 Inl show ?thesis by (simp add: createTransactionHeader_def)
  next
    case (Inr row)
    with i1 have ins: "?ins = (Inr row, s1)" by simp
    note f = insert_header_Inr [OF ins]
    from f have t: "transactionHeadersTable s1 = transactionHeadersTable s @ [row]"
      "h_id row = next_header_id s"
      "transactionDetailsTable s1 = transactionDetailsTable s @ []"
      by simp_all
    from f have z: "\<forall>d \<in> set []. header_id d = next_header_id s"
      "total_debit row = sum_list (map debit [])" "total_kredit row = sum_list (map kredit [])"
      by simp_all
    have "totals_match s1"
      by (rule totals_match_appended [OF assms t z])
    with assms i1 Inr show ?thesis by (simp add: createTransactionHeader_def)
  qed
qed

lemma sum_two_decimals:
  assumes "\<forall>line \<in> set lines. two_decimals (f line)"
  shows "to_numeric (sum_list (map f lines)) = sum_list (map (\<lambda>line. to_numeric (f line)) lines)"
proof -
  from assms have "map f lines = map (\<lambda>line. parseFloat (to_numeric (f line))) lines"
    by (simp add: two_decimals_def)
  then have "sum_list (map f lines) = parseFloat (sum_list (map (\<lambda>line. to_numeric (f line)) lines))"
    by (simp only: sum_list_parseFloat)
  then show ?thesis by (simp only: to_numeric_parseFloat)
qed

lemma map_debit_detail_rows:
  "map debit (detail_rows now hid i vals) = map (\<lambda>line. to_numeric (in_debit line)) vals"
  "map kredit (detail_rows now hid i vals) = map (\<lambda>line. to_numeric (in_kredit line)) vals"
  by (induction vals arbitrary: i) (simp_all add: detail_row_def)

lemma totals_match_createCompleteTransaction:
  assumes "totals_match s" and "well_formed s"
    and "\<forall>line \<in> set (in_details input).
           two_decimals (in_debit line) \<and> two_decimals (in_kredit line)"
  shows "totals_match (snd (createCompleteTransaction now input s))"
proof (cases "find (\<lambda>detail. \<not> account_exists s (in_account_id detail)) (in_details input)")
  case (Some detail)
  with assms show ?thesis
    by (simp add: createCompleteTransaction_def Let_def)
next
  case None
  let ?ins = "insert_header now
                          (in_nomor_transaksi (in_header input)) (in_tanggal (in_header input))
                          (in_tipe (in_header input)) (in_deskripsi (in_header input))
                          (to_numeric (foldl (\<lambda>sum detail. sum + in_debit detail) 0 (in_details input)))
                          (to_numeric (foldl (\<lambda>sum detail. sum + in_kredit detail) 0 (in_details input)))
                          (in_relation_id (in_header input)) (in_user_id (in_header input)) s"
  obtain r1 s1 where i1: "?ins = (r1, s1)" by (cases ?ins)
  show ?thesis
  proof (cases r1)
    case (Inl e)
    with i1 have "s1 = s\<lparr>next_header_id := next_header_id s + 1\<rparr>"
      using insert_header_Inl by blast
    then have "transactionHeadersTable s1 = transactionHeadersTable s"
      "transactionDetailsTable s1 = transactionDetailsTable s"
      by simp_all
    with assms(1) have "totals_match s1" by (rule totals_match_same_tables)
    with assms i1 Inl None show ?thesis by (simp add: createCompleteTransaction_def Let_def)
  next
    case (Inr row)
    with i1 have ins: "?ins = (Inr row, s1)" by simp
    note f = insert_header_Inr [OF ins]
    from f have row: "transactionHeadersTable s1 = transactionHeadersTable s @ [row]"
      "transactionDetailsTable s1 = transactionDetailsTable s"
      "h_id row = next_header_id s"
      "total_debit row = to_numeric (sum_list (map in_debit (in_details input)))"
      "total_kredit row = to_numeric (sum_list (map in_kredit (in_details input)))"
      by (simp_all add: foldl_plus_sum_list)
    obtain r2 s2 where i2: "insert_details now (h_id row) (in_details input) s1 = (r2, s2)"
      by (cases "insert_details now (h_id row) (in_details input) s1")
    let ?rows = "detail_rows now (h_id row) (next_detail_id s1) (in_details input)"
    note s2 = insert_details_tables [OF i2]
    from assms(3) have sums: "total_debit row = sum_list (map debit ?rows)"
      "total_kredit row = sum_list (map kredit ?rows)"
      by (simp_all add: row map_debit_detail_rows sum_two_decimals)
    have "\<forall>d \<in> set ?rows. header_id d = next_header_id s"
    proof
      fix d assume "d \<in> set ?rows"
      from detail_rows_member [OF this] row(3) show "header_id d = next_header_id s" by simp
    qed
    moreover from row s2 have "transactionHeadersTable s2 = transactionHeadersTable s @ [row]"
      "transactionDetailsTable s2 = transactionDetailsTable s @ ?rows"
      by simp_all
    ultimately have "totals_match s2"
      using assms(1,2) row(3) sums
      by (simp add: totals_match_appended [of s s2 row ?rows])
    with assms i1 i2 Inr None show ?thesis
      by (cases r2) (simp_all add: createCompleteTransaction_def Let_def)
  qed
qed

text \<open>
  Header totals are kept in step with the detail rows by every exported operation, as long
  as the amounts given to \<^verbatim>\<open>createCompleteTransaction\<close> have at most two decimals: the
  other operations either leave totals and rows alone or recompute the totals from the
  stored rows (\<^verbatim>\<open>updateHeaderTotals\<close>).
\<close>

lemma totals_match_run:
  assumes "well_formed s" and "totals_match s" and "lines_two_decimals op"
  shows "totals_match (run now op s)"
  using assms
  by (cases op)
     (simp_all add: lines_two_decimals_def totals_match_createTransactionHeader
        totals_match_createCompleteTransaction totals_match_addTransactionDetail
        totals_match_updateTransactionHeader totals_match_updateTransactionDetail
        totals_match_deleteTransactionDetail totals_match_deleteTransaction
        totals_match_postTransaction totals_match_unpostTransaction)

lemma totals_match_run_all:
  "well_formed s \<Longrightarrow> totals_match s \<Longrightarrow>
   \<forall>call \<in> set calls. lines_two_decimals (snd call) \<Longrightarrow>
   totals_match (run_all calls s)"
proof (induction calls arbitrary: s)
  case Nil
  then show ?case by simp
next
  case (Cons call calls)
  from Cons.prems have "totals_match (run (fst call) (snd call) s)"
    by (simp add: totals_match_run)
  moreover from Cons.prems have "well_formed (run (fst call) (snd call) s)"
    by (simp add: well_formed_run)
  ultimately show ?case using Cons by simp
qed

lemma to_numeric_sub_cent:
  "to_numeric (4 / 1000) = 0" "to_numeric (8 / 1000) = 1"
  "to_numeric (1 / 250) = 0" "to_numeric (1 / 125) = 1"
  by code_simp+

text \<open>
  Claim C4 fails on the code. For every stored header, \<^verbatim>\<open>total_debit\<close> is to be the sum
  of \<^verbatim>\<open>debit\<close> over its detail rows. \<^verbatim>\<open>createCompleteTransaction\<close> does not recompute the
  totals from the rows it stores: it writes the sums of the input amounts. The columns keep
  two decimals, so for two debit lines of 0.004 and a kredit line of 0.008 the header
  stores a \<^verbatim>\<open>total_debit\<close> of 0.01 while the three detail rows store a debit of 0.00
  each. (Amounts are in hundredths below.)
\<close>

theorem createCompleteTransaction_totals_rounding:
  "map (\<lambda>h. (h_id h, total_debit h, total_kredit h))
     (transactionHeadersTable
        (snd (createCompleteTransaction test_now test_input_sub_cent test_db)))
     = [(1, 1, 1)] \<and>
   map (\<lambda>d. (header_id d, debit d, kredit d))
     (transactionDetailsTable
        (snd (createCompleteTransaction test_now test_input_sub_cent test_db)))
     = [(1, 0, 0), (1, 0, 0), (1, 0, 1)] \<and>
   sum_list (map debit
     (details_of (snd (createCompleteTransaction test_now test_input_sub_cent test_db)) 1)) = 0"
proof -
  let ?s = "snd (createCompleteTransaction test_now test_input_sub_cent test_db)"
  have h: "map (\<lambda>h. (h_id h, total_debit h, total_kredit h)) (transactionHeadersTable ?s)
            = [(1, 1, 1)]"
    and d: "map (\<lambda>d. (header_id d, debit d, kredit d)) (transactionDetailsTable ?s)
       = [(1, 0, 0), (1, 0, 0), (1, 0, 1)]"
    by (simp_all add: createCompleteTransaction_def test_input_sub_cent_def test_db_def
      test_header_input_def test_debit_line_def test_kredit_line_def user_exists_def
      relation_exists_def account_exists_def insert_header_def insert_details_def
      detail_row_def to_numeric_sub_cent to_numeric_0 Let_def)
  from d have "map debit (details_of ?s 1) = [0, 0, 0]"
    by (auto simp: details_of_def map_eq_Cons_conv)
  with h d show ?thesis by simp
qed

text \<open>
  So the test data, where the totals agree with the detail rows, is taken by one call of
  \<^verbatim>\<open>createCompleteTransaction\<close> to a state where they do not.
\<close>

lemma createCompleteTransaction_breaks_totals_match:
  "well_formed test_db \<and> totals_match test_db \<and>
   \<not> totals_match (run test_now (CreateCompleteTransaction test_input_sub_cent) test_db)"
proof -
  let ?s = "snd (createCompleteTransaction test_now test_input_sub_cent test_db)"
  have h: "map (\<lambda>h. (h_id h, total_debit h, total_kredit h)) (transactionHeadersTable ?s)
            = [(1, 1, 1)]"
    and d: "map (\<lambda>d. (header_id d, debit d, kredit d)) (transactionDetailsTable ?s)
       = [(1, 0, 0), (1, 0, 0), (1, 0, 1)]"
    by (simp_all add: createCompleteTransaction_def test_input_sub_cent_def test_db_def
      test_header_input_def test_debit_line_def test_kredit_line_def user_exists_def
      relation_exists_def account_exists_def insert_header_def insert_details_def
      detail_row_def to_numeric_sub_cent to_numeric_0 Let_def)
  have w: "totals_match test_db" by (simp add: totals_match_def test_db_def)
  have "\<not> totals_match ?s"
  proof
    assume t: "totals_match ?s"
    from h obtain row where row: "transactionHeadersTable ?s = [row]" "h_id row = 1"
      "total_debit row = 1"
      by auto
    from d have "map debit (details_of ?s 1) = [0, 0, 0]"
      by (auto simp: details_of_def map_eq_Cons_conv)
    with t row show False by (simp add: totals_match_def)
  qed
  with w well_formed_test_db show ?thesis by simp
qed

end
